theory Spec2Isabelle
  imports Complex_Main
begin

section \<open>The pinger of \<open>SDL/Practice-2/main.py\<close>\<close>

text \<open>
  The program reads its configuration from the environment, checks the credentials, sets up
  three log sinks, installs a handler for SIGINT and SIGTERM and then polls a PostgreSQL
  server: one connection and one \<open>SELECT VERSION();\<close> per iteration, followed by a sleep
  that is cut into steps of one second. The embedding follows the module from top to
  bottom. What the module does to the outside (driver calls, log records, sleeps) is an
  explicit trace of events; what the outside does to the module (the environment, the
  outcome of every driver call, the delivery of signals, the duration of a check) is an
  explicit input.
\<close>

subsection \<open>Python values used by the module\<close>

text \<open>
  Every exception value of the model is an instance of Python's \<open>Exception\<close>. The three
  constructors are the three classes that \<open>check_version\<close> tells apart:
  \<open>psycopg2.OperationalError\<close>, a \<open>psycopg2.DatabaseError\<close> that is not an
  \<open>OperationalError\<close>, and any other \<open>Exception\<close> (a \<open>ValueError\<close>, an
  \<open>InterfaceError\<close>, an \<open>OSError\<close>). The string is \<open>str(e)\<close>.
\<close>

datatype exn = OperationalError string | DatabaseError string | OtherException string

fun exn_str :: "exn \<Rightarrow> string" where
  "exn_str (OperationalError m) = m"
| "exn_str (DatabaseError m) = m"
| "exn_str (OtherException m) = m"

text \<open>
  What may leave \<open>main_loop\<close> and reach the \<open>try\<close> of the entry block: a
  \<open>KeyboardInterrupt\<close> (a \<open>BaseException\<close> that is not an \<open>Exception\<close>) or an
  \<open>Exception\<close>.
\<close>

datatype base_exn = KeyboardInterrupt | Exception exn

text \<open>\<open>str(n)\<close> of an integer, used where a message renders a number.\<close>

fun digit_char :: "nat \<Rightarrow> char" where
  "digit_char n = char_of (48 + n mod 10)"

fun str_nat :: "nat \<Rightarrow> string" where
  "str_nat n = (if n < 10 then [digit_char n] else str_nat (n div 10) @ [digit_char n])"

definition str_int :: "int \<Rightarrow> string" where
  "str_int i = (if i < 0 then CHR ''-'' # str_nat (nat (- i)) else str_nat (nat i))"

text \<open>
  The built-in \<open>int\<close> applied to a \<open>str\<close> is not code of the module: it is an input
  of the model, a function \<open>int_of\<close> from the text to the integer, with \<open>None\<close> where
  \<open>int\<close> raises \<open>ValueError\<close>. Nothing is assumed about which texts it accepts.
\<close>

text \<open>Truth value of an \<open>os.getenv\<close> result: \<open>None\<close> and the empty string are false.\<close>

fun truthy :: "string option \<Rightarrow> bool" where
  "truthy None = False"
| "truthy (Some s) = (s \<noteq> [])"

subsection \<open>Configuration (lines 11 to 18)\<close>

type_synonym env = "string \<rightharpoonup> string"

definition getenv :: "env \<Rightarrow> string \<Rightarrow> string \<Rightarrow> string" where
  "getenv e k d = (case e k of None \<Rightarrow> d | Some v \<Rightarrow> v)"

record config =
  DB_HOST :: string
  DB_PORT :: int
  DB_NAME :: "string option"
  DB_USER :: "string option"
  DB_PASS :: "string option"
  PING_INTERVAL :: int
  CONNECT_TIMEOUT :: int
  LOG_FILE :: string

text \<open>
  What ends the module before \<open>main_loop\<close> is called, with nothing to catch it:
  \<open>ValueError s\<close> is the \<open>ValueError\<close> of \<open>int(s)\<close>, kept with the text \<open>s\<close> that
  was refused; \<open>Uncaught e\<close> is any other exception.
\<close>

datatype crash = ValueError string | Uncaught exn

text \<open>
  The assignments run in source order, so the first malformed integer raises before the
  credentials are looked at: \<open>DB_PORT\<close> on line 12, \<open>PING_INTERVAL_SECONDS\<close> on line 16,
  \<open>CONNECT_TIMEOUT_SECONDS\<close> on line 17.
\<close>

definition load_config :: "(string \<Rightarrow> int option) \<Rightarrow> env \<Rightarrow> crash + config" where
  "load_config int_of e =
     (case int_of (getenv e ''DB_PORT'' ''5432'') of
        None \<Rightarrow> Inl (ValueError (getenv e ''DB_PORT'' ''5432''))
      | Some port \<Rightarrow>
     (case int_of (getenv e ''PING_INTERVAL_SECONDS'' (str_int (5 * 60))) of
        None \<Rightarrow> Inl (ValueError (getenv e ''PING_INTERVAL_SECONDS'' (str_int (5 * 60))))
      | Some interval \<Rightarrow>
     (case int_of (getenv e ''CONNECT_TIMEOUT_SECONDS'' ''10'') of
        None \<Rightarrow> Inl (ValueError (getenv e ''CONNECT_TIMEOUT_SECONDS'' ''10''))
      | Some tmo \<Rightarrow>
          Inr \<lparr> DB_HOST = getenv e ''DB_HOST'' ''localhost'',
                DB_PORT = port,
                DB_NAME = e ''DB_NAME'',
                DB_USER = e ''DB_USER'',
                DB_PASS = e ''DB_PASS'',
                PING_INTERVAL = interval,
                CONNECT_TIMEOUT = tmo,
                LOG_FILE = getenv e ''LOG_FILE'' [] \<rparr>)))"

text \<open>The credential check of lines 20 to 22: \<open>if not DB_USER or not DB_PASS\<close>.\<close>

definition credentials_missing :: "config \<Rightarrow> bool" where
  "credentials_missing c = (\<not> truthy (DB_USER c) \<or> \<not> truthy (DB_PASS c))"

definition credentials_message :: string where
  "credentials_message = ''ERROR: DB_USER and DB_PASS environment variables must be set.''"

subsection \<open>Logging (lines 25 to 46)\<close>

datatype level = DEBUG | INFO | WARNING | ERROR

fun levelno :: "level \<Rightarrow> nat" where
  "levelno DEBUG = 10"
| "levelno INFO = 20"
| "levelno WARNING = 30"
| "levelno ERROR = 40"

fun levelname :: "level \<Rightarrow> string" where
  "levelname DEBUG = ''DEBUG''"
| "levelname INFO = ''INFO''"
| "levelname WARNING = ''WARNING''"
| "levelname ERROR = ''ERROR''"

record log_rec =
  asctime :: string
  lvl :: level
  msg :: string

text \<open>
  A format string of \<open>logging.Formatter\<close>, cut at its three placeholders
  \<open>%(asctime)s\<close>, \<open>%(levelname)s\<close> and \<open>%(message)s\<close>; the rest is literal text.
\<close>

datatype piece = Lit string | Asctime | Levelname | Message

fun render :: "log_rec \<Rightarrow> piece \<Rightarrow> string" where
  "render r (Lit s) = s"
| "render r Asctime = asctime r"
| "render r Levelname = levelname (lvl r)"
| "render r Message = msg r"

definition format :: "piece list \<Rightarrow> log_rec \<Rightarrow> string" where
  "format f r = concat (map (render r) f)"

text \<open>Where a handler writes: a stream, or a file with its open mode.\<close>

datatype stream = Stdout | Stderr | File string string

record handler =
  target :: stream
  min_level :: level
  fmt :: "piece list"

definition stdout_h :: handler where
  "stdout_h = \<lparr> target = Stdout, min_level = INFO,
                 fmt = [Asctime, Lit '' [INFO] '', Message] \<rparr>"

definition stderr_h :: handler where
  "stderr_h = \<lparr> target = Stderr, min_level = WARNING,
                 fmt = [Asctime, Lit '' [ERROR] '', Message] \<rparr>"

definition file_h :: "string \<Rightarrow> handler" where
  "file_h path = \<lparr> target = File path ''a'', min_level = DEBUG,
                    fmt = [Asctime, Lit '' ['', Levelname, Lit ''] '', Message] \<rparr>"

text \<open>
  \<open>os.path.dirname\<close> of \<open>posixpath\<close>: the text up to the last slash, with the slashes
  at its end removed unless it consists of slashes only.
\<close>

definition dirname :: "string \<Rightarrow> string" where
  "dirname p =
     (let hd_part = rev (dropWhile (\<lambda>c. c \<noteq> CHR ''/'') (rev p))
      in if hd_part \<noteq> [] \<and> \<not> list_all (\<lambda>c. c = CHR ''/'') hd_part
         then rev (dropWhile (\<lambda>c. c = CHR ''/'') (rev hd_part))
         else hd_part)"

datatype fs_event = Makedirs string | OpenFile string string

text \<open>
  The file system answers the two calls of lines 42 and 43; an \<open>OSError\<close> of either
  is not caught by the module.
\<close>

record fs_script =
  makedirs_r :: "exn option"
  open_r :: "exn option"

text \<open>
  The handlers in the order of \<open>addHandler\<close>. The file handler exists exactly when
  \<open>LOG_FILE\<close> is a non-empty string. The result carries the file-system calls made.
\<close>

definition setup_logging :: "config \<Rightarrow> fs_script \<Rightarrow> (exn + handler list) \<times> fs_event list" where
  "setup_logging c fs =
     (if LOG_FILE c \<noteq> []
      then (let d = (if dirname (LOG_FILE c) \<noteq> [] then dirname (LOG_FILE c) else ''.'')
            in case makedirs_r fs of
                 Some e \<Rightarrow> (Inl e, [Makedirs d])
               | None \<Rightarrow>
                   (case open_r fs of
                      Some e \<Rightarrow> (Inl e, [Makedirs d, OpenFile (LOG_FILE c) ''a''])
                    | None \<Rightarrow> (Inr [stdout_h, stderr_h, file_h (LOG_FILE c)],
                               [Makedirs d, OpenFile (LOG_FILE c) ''a''])))
      else (Inr [stdout_h, stderr_h], []))"

text \<open>
  The logger itself is at \<open>DEBUG\<close>, so every record reaches the handlers; a handler
  writes the records at or above its own level, formatted by its own formatter.
\<close>

definition emit :: "handler list \<Rightarrow> log_rec \<Rightarrow> (stream \<times> string) list" where
  "emit hs r =
     map (\<lambda>h. (target h, format (fmt h) r))
         (filter (\<lambda>h. levelno (min_level h) \<le> levelno (lvl r)) hs)"

subsection \<open>Driver calls and their trace\<close>

text \<open>A column value of a fetched row, and \<open>str\<close> of it.\<close>

datatype sqlval = SqlText string | SqlNull

fun py_str :: "sqlval \<Rightarrow> string" where
  "py_str (SqlText s) = s"
| "py_str SqlNull = ''None''"

record kwargs =
  dbname :: "string option"
  user :: "string option"
  password :: "string option"
  host :: string
  port :: int

text \<open>
  An event is a call that leaves the module: a driver call (recorded when it is made,
  whatever it answers), a record handed to the logger, or a \<open>time.sleep\<close>.
  \<open>Connect t k\<close> is \<open>psycopg2.connect(connect_timeout=t, **k)\<close>.
\<close>

datatype event =
    Connect int kwargs
  | Cursor
  | Execute string "int list"
  | Commit
  | Rollback
  | Fetchone
  | CursorClose
  | Close
  | Log level string
  | Sleep real

text \<open>
  The answers of the driver during one call of \<open>check_version\<close>, one field for each
  call site: \<open>None\<close> is a normal return, \<open>Some e\<close> raises \<open>e\<close>. The two cursors are
  the one of \<open>connect_with_timeout\<close> and the one of \<open>check_version\<close>.
\<close>

record db_script =
  connect_r :: "exn option"
  cursor1_r :: "exn option"
  set_timeout_r :: "exn option"
  commit_r :: "exn option"
  rollback_r :: "exn option"
  cursor1_close_r :: "exn option"
  cursor2_r :: "exn option"
  execute_r :: "exn option"
  fetchone_r :: "exn + sqlval list option"
  cursor2_close_r :: "exn option"
  close_r :: "exn option"

type_synonym 'a run = "event list \<Rightarrow> (exn + 'a) \<times> event list"

definition call :: "event \<Rightarrow> exn option \<Rightarrow> unit run" where
  "call ev r tr = ((case r of None \<Rightarrow> Inr () | Some e \<Rightarrow> Inl e), tr @ [ev])"

text \<open>
  \<open>with conn.cursor() as cur: body\<close>. The cursor is closed when the block is left, also
  by an exception; an exception of that close replaces the one of the body.
\<close>

definition with_cursor :: "exn option \<Rightarrow> exn option \<Rightarrow> unit run \<Rightarrow> unit run" where
  "with_cursor open_res close_res body tr =
     (case call Cursor open_res tr of
        (Inl e, tr1) \<Rightarrow> (Inl e, tr1)
      | (Inr _, tr1) \<Rightarrow>
          (case body tr1 of
             (r, tr2) \<Rightarrow>
               (case call CursorClose close_res tr2 of
                  (Inl e', tr3) \<Rightarrow> (Inl e', tr3)
                | (Inr _, tr3) \<Rightarrow> (r, tr3))))"

subsection \<open>\<open>connect_with_timeout\<close> (lines 62 to 86)\<close>

text \<open>
  Lines 73 to 79: the statement timeout is \<open>int(CONNECT_TIMEOUT * 1000)\<close>. An exception
  of \<open>execute\<close> or of \<open>commit\<close> is caught and answered by \<open>rollback\<close>; an exception
  of \<open>rollback\<close> itself is not caught here.
\<close>

definition set_statement_timeout :: "config \<Rightarrow> db_script \<Rightarrow> unit run" where
  "set_statement_timeout c s =
     with_cursor (cursor1_r s) (cursor1_close_r s)
       (\<lambda>tr. case call (Execute ''SET statement_timeout = %s;'' [CONNECT_TIMEOUT c * 1000])
                       (set_timeout_r s) tr of
                (Inl e, tr1) \<Rightarrow> call Rollback (rollback_r s) tr1
              | (Inr _, tr1) \<Rightarrow>
                  (case call Commit (commit_r s) tr1 of
                     (Inl e, tr2) \<Rightarrow> call Rollback (rollback_r s) tr2
                   | (Inr _, tr2) \<Rightarrow> (Inr (), tr2)))"

text \<open>
  The \<open>finally\<close> block once \<open>conn\<close> is set: \<open>conn.close()\<close> is called, and an exception
  of it is passed over. The result of the block that is being left stays as it is.
\<close>

definition conn_close :: "db_script \<Rightarrow> (exn + unit) \<times> event list \<Rightarrow> (exn + unit) \<times> event list" where
  "conn_close s p =
     (case p of
        (r, tr) \<Rightarrow>
          (case call Close (close_r s) tr of
             (Inl e, tr1) \<Rightarrow> (r, tr1)
           | (Inr _, tr1) \<Rightarrow> (r, tr1)))"

text \<open>
  The context manager around a body. When \<open>psycopg2.connect\<close> raises, \<open>conn\<close> is still
  \<open>None\<close> and the \<open>finally\<close> block does nothing.
\<close>

definition connect_with_timeout :: "config \<Rightarrow> db_script \<Rightarrow> kwargs \<Rightarrow> unit run \<Rightarrow> unit run" where
  "connect_with_timeout c s k body tr =
     (case call (Connect (CONNECT_TIMEOUT c) k) (connect_r s) tr of
        (Inl e, tr1) \<Rightarrow> (Inl e, tr1)
      | (Inr _, tr1) \<Rightarrow>
          (case set_statement_timeout c s tr1 of
             (Inl e, tr2) \<Rightarrow> conn_close s (Inl e, tr2)
           | (Inr _, tr2) \<Rightarrow> conn_close s (body tr2)))"

subsection \<open>\<open>check_version\<close> (lines 89 to 116)\<close>

definition startswith :: "string \<Rightarrow> string \<Rightarrow> bool" where
  "startswith s p = (take (length p) s = p)"

text \<open>
  Lines 98 to 107: the record chosen by the fetched row. \<open>not row\<close> holds for \<open>None\<close>
  and for an empty tuple.
\<close>

fun version_log :: "sqlval list option \<Rightarrow> event" where
  "version_log None = Log WARNING ''Connected but VERSION() returned empty result.''"
| "version_log (Some []) = Log WARNING ''Connected but VERSION() returned empty result.''"
| "version_log (Some (v # vs)) =
     (if startswith (py_str v) ''PostgreSQL''
      then Log INFO (''Successful connection. VERSION: '' @ py_str v)
      else Log INFO (''Atypical VERSION response (no error): '' @ py_str v))"

definition check_version_body :: "db_script \<Rightarrow> unit run" where
  "check_version_body s =
     with_cursor (cursor2_r s) (cursor2_close_r s)
       (\<lambda>tr. case call (Execute ''SELECT VERSION();'' []) (execute_r s) tr of
                (Inl e, tr1) \<Rightarrow> (Inl e, tr1)
              | (Inr _, tr1) \<Rightarrow>
                  (case fetchone_r s of
                     Inl e \<Rightarrow> (Inl e, tr1 @ [Fetchone])
                   | Inr row \<Rightarrow> (Inr (), tr1 @ [Fetchone, version_log row])))"

text \<open>The three \<open>except\<close> clauses, in source order.\<close>

fun failure_log :: "exn \<Rightarrow> event" where
  "failure_log (OperationalError m) = Log ERROR (''Connection failed: '' @ m)"
| "failure_log (DatabaseError m) = Log ERROR (''Database error: '' @ m)"
| "failure_log (OtherException m) = Log ERROR (''Unexpected error: '' @ m)"

definition check_kwargs :: "config \<Rightarrow> kwargs" where
  "check_kwargs c = \<lparr> dbname = DB_NAME c, user = DB_USER c, password = DB_PASS c,
                      host = DB_HOST c, port = DB_PORT c \<rparr>"

definition check_version :: "config \<Rightarrow> db_script \<Rightarrow> unit run" where
  "check_version c s tr =
     (case connect_with_timeout c s (check_kwargs c) (check_version_body s) tr of
        (Inl e, tr1) \<Rightarrow> (Inr (), tr1 @ [failure_log e])
      | (Inr _, tr1) \<Rightarrow> (Inr (), tr1))"

subsection \<open>The stop flag and the signal handler (lines 49 to 59)\<close>

datatype signal = SIGINT | SIGTERM

fun signum :: "signal \<Rightarrow> nat" where
  "signum SIGINT = 2"
| "signum SIGTERM = 15"

text \<open>
  The state of the running process: the clock, the module variable \<open>stop_requested\<close>
  and the events so far.
\<close>

record state =
  now :: real
  stop_requested :: bool
  trace :: "event list"

definition initial_state :: state where
  "initial_state = \<lparr> now = 0, stop_requested = False, trace = [] \<rparr>"

definition signal_handler :: "signal \<Rightarrow> state \<Rightarrow> state" where
  "signal_handler sg st =
     st \<lparr> stop_requested := True,
          trace := trace st @
            [Log INFO (''Signal '' @ str_nat (signum sg) @
                       '' received: stopping after current iteration.'')] \<rparr>"

text \<open>
  Signals are given by their times of delivery. Letting \<open>d\<close> seconds pass runs the handler
  for each signal delivered in that time. A \<open>time.sleep\<close> that a handler interrupts
  goes on sleeping for the rest of its time, so the clock moves by \<open>d\<close> in any case.
\<close>

definition delivered :: "(real \<times> signal) list \<Rightarrow> real \<Rightarrow> real \<Rightarrow> (real \<times> signal) list" where
  "delivered sigs a b = filter (\<lambda>p. a < fst p \<and> fst p \<le> b) sigs"

definition advance :: "(real \<times> signal) list \<Rightarrow> real \<Rightarrow> state \<Rightarrow> state" where
  "advance sigs d st =
     fold (\<lambda>p. signal_handler (snd p)) (delivered sigs (now st) (now st + d))
          (st \<lparr> now := now st + d \<rparr>)"

subsection \<open>\<open>main_loop\<close> (lines 119 to 138)\<close>

text \<open>
  Lines 135 to 137: \<open>while to_sleep > 0 and not stop_requested\<close>, with a step of one
  second. Times are real numbers.
\<close>

function sleep_loop :: "(real \<times> signal) list \<Rightarrow> real \<Rightarrow> state \<Rightarrow> state" where
  "sleep_loop sigs to_sleep st =
     (if to_sleep > 0 \<and> \<not> stop_requested st
      then sleep_loop sigs (to_sleep - 1)
             (advance sigs (min 1 to_sleep)
                (st \<lparr> trace := trace st @ [Sleep (min 1 to_sleep)] \<rparr>))
      else st)"
  by pat_completeness auto
termination
proof (relation "measure (\<lambda>(sigs, to_sleep, st). nat \<lceil>to_sleep\<rceil>)")
  show "wf (measure (\<lambda>(sigs, to_sleep, st). nat \<lceil>to_sleep\<rceil>))"
    by simp
next
  fix sigs :: "(real \<times> signal) list" and to_sleep :: real and st :: state
  assume "0 < to_sleep \<and> \<not> stop_requested st"
  then have "0 < \<lceil>to_sleep\<rceil>" and "\<lceil>to_sleep - 1\<rceil> = \<lceil>to_sleep\<rceil> - 1"
    by simp_all
  then show "((sigs, to_sleep - 1,
               advance sigs (min 1 to_sleep) (st\<lparr>trace := trace st @ [Sleep (min 1 to_sleep)]\<rparr>)),
              sigs, to_sleep, st) \<in> measure (\<lambda>(sigs, to_sleep, st). nat \<lceil>to_sleep\<rceil>)"
    by simp
qed

declare sleep_loop.simps [simp del]

text \<open>
  Line 130 subtracts a float from the integer \<open>PING_INTERVAL\<close>, which converts the
  integer to a float first. The conversion rounds to the nearest float and raises
  \<open>OverflowError\<close> when that is beyond the largest one, that is from
  \<open>2^1024 - 2^970\<close> on in absolute value. Below that bound the floats are taken as
  the real numbers they stand for.
\<close>

definition float_overflow :: "int \<Rightarrow> bool" where
  "float_overflow n = (2 ^ 1024 - 2 ^ 970 \<le> \<bar>n\<bar>)"

definition overflow_error :: exn where
  "overflow_error = OtherException ''int too large to convert to float''"

text \<open>
  One pass of the outer loop, lines 123 to 137. The driver's answers \<open>s\<close> and the time
  \<open>dur\<close> that the check takes are inputs; signals delivered while the check runs are
  handled after its events. The \<open>except\<close> of line 126 is written out although
  \<open>check_version\<close> hands every failure to its own handlers. Line 130 is outside that
  \<open>try\<close>: the result is the exception that leaves the pass, if any, and the state
  reached.
\<close>

definition iteration :: "config \<Rightarrow> (real \<times> signal) list \<Rightarrow> db_script \<Rightarrow> real \<Rightarrow> state \<Rightarrow> exn option \<times> state" where
  "iteration c sigs s dur st =
     (let start = now st;
          checked = (case check_version c s (trace st) of
                       (Inl e, tr) \<Rightarrow>
                         tr @ [Log ERROR (''Unhandled error in check_version: '' @ exn_str e)]
                     | (Inr _, tr) \<Rightarrow> tr);
          st1 = advance sigs dur (st \<lparr> trace := checked \<rparr>);
          elapsed = now st1 - start
      in if float_overflow (PING_INTERVAL c) then (Some overflow_error, st1)
         else (let to_sleep = max 0 (real_of_int (PING_INTERVAL c) - elapsed)
               in (None, if to_sleep > 0 then sleep_loop sigs to_sleep st1 else st1)))"

text \<open>
  The outer loop runs until the flag is set, which may be never. Its input is the list of
  iterations the outside is ready to answer; \<open>Running\<close> is the loop still going when that
  list is used up, \<open>Returned\<close> is the loop left at line 122, \<open>Raised\<close> is the loop
  left by an exception.
\<close>

datatype progress = Returned state | Running state | Raised exn state

fun main_while :: "config \<Rightarrow> (real \<times> signal) list \<Rightarrow> (db_script \<times> real) list \<Rightarrow> state \<Rightarrow> progress" where
  "main_while c sigs [] st = (if stop_requested st then Returned st else Running st)"
| "main_while c sigs (x # xs) st =
     (if stop_requested st then Returned st
      else (case iteration c sigs (fst x) (snd x) st of
              (Some e, st1) \<Rightarrow> Raised e st1
            | (None, st1) \<Rightarrow> main_while c sigs xs st1))"

fun str_opt :: "string option \<Rightarrow> string" where
  "str_opt None = ''None''"
| "str_opt (Some s) = s"

definition started_log :: "config \<Rightarrow> event" where
  "started_log c =
     Log INFO (''pinger started. Configuration: host='' @ DB_HOST c @
               '' port='' @ str_int (DB_PORT c) @
               '' db='' @ str_opt (DB_NAME c) @
               '' interval='' @ str_int (PING_INTERVAL c))"

definition main_loop :: "config \<Rightarrow> (real \<times> signal) list \<Rightarrow> (db_script \<times> real) list \<Rightarrow> state \<Rightarrow> progress" where
  "main_loop c sigs its st =
     (case main_while c sigs its (st \<lparr> trace := trace st @ [started_log c] \<rparr>) of
        Returned st1 \<Rightarrow> Returned (st1 \<lparr> trace := trace st1 @ [Log INFO ''pinger stopped.''] \<rparr>)
      | Running st1 \<Rightarrow> Running st1
      | Raised e st1 \<Rightarrow> Raised e st1)"

subsection \<open>The entry block (lines 141 to 148) and the whole process\<close>

text \<open>
  What the entry block logs and the exit code of the process, from the way \<open>main_loop\<close>
  ended. After the \<open>KeyboardInterrupt\<close> clause the module simply ends.
\<close>

fun main_block :: "base_exn + unit \<Rightarrow> event list \<times> int" where
  "main_block (Inr u) = ([], 0)"
| "main_block (Inl KeyboardInterrupt) = ([Log INFO ''Interrupted by user.''], 0)"
| "main_block (Inl (Exception e)) = ([Log ERROR (''Fatal error: '' @ exn_str e)], 1)"

text \<open>
  A run of the module. \<open>exit_code\<close> is \<open>None\<close> while the loop is still going. An
  exception that nothing catches ends the interpreter with code 1.
\<close>

record outcome =
  exit_code :: "int option"
  uncaught :: "crash option"
  printed :: "string list"
  fs_calls :: "fs_event list"
  handlers :: "handler list"
  installed :: "signal list"
  events :: "event list"

definition nothing_done :: outcome where
  "nothing_done = \<lparr> exit_code = None, uncaught = None, printed = [], fs_calls = [],
                    handlers = [], installed = [], events = [] \<rparr>"

text \<open>
  Lines 24 onward, reached when the credential check has passed. When the file sink
  cannot be set up, the two stream handlers of lines 32 and 38 have been added already.
  An exception that leaves \<open>main_loop\<close> is handed to the entry block.
\<close>

definition monitor :: "config \<Rightarrow> fs_script \<Rightarrow> (real \<times> signal) list \<Rightarrow> (db_script \<times> real) list \<Rightarrow> outcome" where
  "monitor c fs sigs its =
     (case setup_logging c fs of
        (Inl err, calls) \<Rightarrow>
          nothing_done \<lparr> exit_code := Some 1, uncaught := Some (Uncaught err), fs_calls := calls,
                         handlers := [stdout_h, stderr_h] \<rparr>
      | (Inr hs, calls) \<Rightarrow>
          (case main_loop c sigs its initial_state of
             Returned st \<Rightarrow>
               nothing_done \<lparr> exit_code := Some (snd (main_block (Inr ()))),
                              fs_calls := calls, handlers := hs,
                              installed := [SIGINT, SIGTERM],
                              events := trace st @ fst (main_block (Inr ())) \<rparr>
           | Running st \<Rightarrow>
               nothing_done \<lparr> fs_calls := calls, handlers := hs,
                              installed := [SIGINT, SIGTERM],
                              events := trace st \<rparr>
           | Raised e st \<Rightarrow>
               nothing_done \<lparr> exit_code := Some (snd (main_block (Inl (Exception e)))),
                              fs_calls := calls, handlers := hs,
                              installed := [SIGINT, SIGTERM],
                              events := trace st @ fst (main_block (Inl (Exception e))) \<rparr>))"

definition process :: "(string \<Rightarrow> int option) \<Rightarrow> env \<Rightarrow> fs_script \<Rightarrow> (real \<times> signal) list \<Rightarrow> (db_script \<times> real) list \<Rightarrow> outcome" where
  "process int_of e fs sigs its =
     (case load_config int_of e of
        Inl err \<Rightarrow> nothing_done \<lparr> exit_code := Some 1, uncaught := Some err \<rparr>
      | Inr c \<Rightarrow>
          if credentials_missing c
          then nothing_done \<lparr> exit_code := Some 2, printed := [credentials_message] \<rparr>
          else monitor c fs sigs its)"

text \<open>
  A run that only adds events at the end of the trace it is given, and whose result does
  not depend on that trace.
\<close>

definition appends :: "unit run \<Rightarrow> bool" where
  "appends f = (\<forall>tr. fst (f tr) = fst (f []) \<and> snd (f tr) = tr @ snd (f []))"

subsection \<open>Notions used to state the properties\<close>

fun is_Log :: "event \<Rightarrow> bool" where
  "is_Log (Log l m) = True"
| "is_Log ev = False"


fun is_Sleep :: "event \<Rightarrow> bool" where
  "is_Sleep (Sleep d) = True"
| "is_Sleep ev = False"

fun log_level :: "event \<Rightarrow> level option" where
  "log_level (Log l m) = Some l"
| "log_level ev = None"

text \<open>The records handed to the logger, in order.\<close>

definition logged :: "event list \<Rightarrow> event list" where
  "logged tr = filter is_Log tr"

text \<open>
  The connection is established and the body of the \<open>with\<close> statement of line 92 is
  entered: \<open>connect\<close> and the first cursor succeed, the statement timeout is either set
  and committed or rolled back without an exception, and the first cursor closes.
\<close>

definition session_ready :: "db_script \<Rightarrow> bool" where
  "session_ready s =
     (connect_r s = None \<and> cursor1_r s = None \<and>
      ((set_timeout_r s = None \<and> commit_r s = None) \<or> rollback_r s = None) \<and>
      cursor1_close_r s = None)"

text \<open>The diagnostic query runs without an error and \<open>fetchone\<close> returns \<open>row\<close>.\<close>

definition query_ok :: "db_script \<Rightarrow> sqlval list option \<Rightarrow> bool" where
  "query_ok s row =
     (session_ready s \<and> cursor2_r s = None \<and> execute_r s = None \<and> fetchone_r s = Inr row)"

fun state_of :: "progress \<Rightarrow> state" where
  "state_of (Returned st) = st"
| "state_of (Running st) = st"
| "state_of (Raised e st) = st"

fun has_returned :: "progress \<Rightarrow> bool" where
  "has_returned (Returned st) = True"
| "has_returned (Running st) = False"
| "has_returned (Raised e st) = False"

fun has_raised :: "progress \<Rightarrow> bool" where
  "has_raised (Raised e st) = True"
| "has_raised p = False"


text \<open>
  The examples apply \<open>int\<close> to five texts only: the three default literals, the digit
  \<open>1\<close> followed by 309 zeros, which it reads as \<open>10^309\<close>, and \<open>abc\<close>, which it
  refuses. The table below has the values of \<open>int\<close> at these texts.
\<close>

definition huge_literal :: string where
  "huge_literal = CHR ''1'' # replicate 309 (CHR ''0'')"

definition int_table :: "string \<Rightarrow> int option" where
  "int_table s =
     (if s = huge_literal then Some (10 ^ 309)
      else [''5432'' \<mapsto> 5432, ''300'' \<mapsto> 300, ''10'' \<mapsto> 10] s)"

text \<open>The record that the signal handler logs.\<close>

definition signal_log :: "signal \<Rightarrow> event" where
  "signal_log sg =
     Log INFO (''Signal '' @ str_nat (signum sg) @ '' received: stopping after current iteration.'')"

text \<open>An event of the waiting phase: a sleep or a log record, no driver call.\<close>

definition idle :: "event list \<Rightarrow> bool" where
  "idle evs = list_all (\<lambda>ev. is_Sleep ev \<or> is_Log ev) evs"

text \<open>The time asked of \<open>time.sleep\<close> by an event, and by a whole trace.\<close>

fun sleep_time :: "event \<Rightarrow> real" where
  "sleep_time (Sleep d) = d"
| "sleep_time ev = 0"

definition slept :: "event list \<Rightarrow> real" where
  "slept tr = sum_list (map sleep_time tr)"

text \<open>The times asked of \<open>time.sleep\<close> by the events of a trace, in order.\<close>

definition sleeps :: "event list \<Rightarrow> real list" where
  "sleeps tr = map sleep_time (filter is_Sleep tr)"

text \<open>Concrete inputs on which the properties are exercised.\<close>

definition example_config :: config where
  "example_config =
     \<lparr> DB_HOST = ''localhost'', DB_PORT = 5432, DB_NAME = Some ''app'', DB_USER = Some ''u'',
       DB_PASS = Some ''p'', PING_INTERVAL = 5, CONNECT_TIMEOUT = 10, LOG_FILE = [] \<rparr>"

definition healthy :: "sqlval list option \<Rightarrow> db_script" where
  "healthy row =
     \<lparr> connect_r = None, cursor1_r = None, set_timeout_r = None, commit_r = None,
       rollback_r = None, cursor1_close_r = None, cursor2_r = None, execute_r = None,
       fetchone_r = Inr row, cursor2_close_r = None, close_r = None \<rparr>"

section \<open>Properties\<close>

subsection \<open>Every run of the driver part only appends events\<close>

lemma appendsD: "appends f \<Longrightarrow> f [] = (r, t0) \<Longrightarrow> f tr = (r, tr @ t0)"
  by (metis appends_def prod.collapse fst_conv snd_conv)

lemma appends_with_cursor:
  assumes "appends body"
  shows "appends (with_cursor o_r c_r body)"
  unfolding appends_def
proof
  fix tr
  obtain rb tb where b0: "body [] = (rb, tb)"
    by (cases "body []")
  have b: "\<And>t. body t = (rb, t @ tb)"
    using assms b0 by (rule appendsD)
  show "fst (with_cursor o_r c_r body tr) = fst (with_cursor o_r c_r body []) \<and>
        snd (with_cursor o_r c_r body tr) = tr @ snd (with_cursor o_r c_r body [])"
    by (cases o_r; cases c_r) (simp_all add: with_cursor_def call_def b)
qed

lemma appends_timeout_body:
  "appends (\<lambda>tr. case call (Execute q a) r1 tr of
                (Inl e, tr1) \<Rightarrow> call Rollback r3 tr1
              | (Inr _, tr1) \<Rightarrow>
                  (case call Commit r2 tr1 of
                     (Inl e, tr2) \<Rightarrow> call Rollback r3 tr2
                   | (Inr _, tr2) \<Rightarrow> (Inr (), tr2)))"
  by (cases r1; cases r2; cases r3; simp add: appends_def call_def)

lemma appends_set_statement_timeout: "appends (set_statement_timeout c s)"
  unfolding set_statement_timeout_def by (rule appends_with_cursor) (rule appends_timeout_body)

lemma appends_probe_body:
  "appends (\<lambda>tr. case call (Execute q a) r1 tr of
                (Inl e, tr1) \<Rightarrow> (Inl e, tr1)
              | (Inr _, tr1) \<Rightarrow>
                  (case f of
                     Inl e \<Rightarrow> (Inl e, tr1 @ [Fetchone])
                   | Inr row \<Rightarrow> (Inr (), tr1 @ [Fetchone, version_log row])))"
  by (cases r1; cases f; simp add: appends_def call_def)

lemma appends_check_version_body: "appends (check_version_body s)"
  unfolding check_version_body_def by (rule appends_with_cursor) (rule appends_probe_body)

lemma conn_close_eq: "conn_close s (r, tr) = (r, tr @ [Close])"
  by (cases "close_r s") (simp_all add: conn_close_def call_def)

lemma appends_connect_with_timeout:
  assumes "appends body"
  shows "appends (connect_with_timeout c s k body)"
  unfolding appends_def
proof
  fix tr
  obtain rb tb where b0: "body [] = (rb, tb)"
    by (cases "body []")
  have b: "\<And>t. body t = (rb, t @ tb)"
    using assms b0 by (rule appendsD)
  obtain rt tt where t0: "set_statement_timeout c s [] = (rt, tt)"
    by (cases "set_statement_timeout c s []")
  have t: "\<And>t. set_statement_timeout c s t = (rt, t @ tt)"
    using appends_set_statement_timeout t0 by (rule appendsD)
  show "fst (connect_with_timeout c s k body tr) = fst (connect_with_timeout c s k body []) \<and>
        snd (connect_with_timeout c s k body tr) = tr @ snd (connect_with_timeout c s k body [])"
    by (cases "connect_r s"; cases rt)
       (simp_all add: connect_with_timeout_def call_def t b conn_close_eq)
qed

lemma appends_check_version: "appends (check_version c s)"
  unfolding appends_def
proof
  fix tr
  obtain r0 t0 where
    c0: "connect_with_timeout c s (check_kwargs c) (check_version_body s) [] = (r0, t0)"
    by (cases "connect_with_timeout c s (check_kwargs c) (check_version_body s) []")
  have t: "\<And>t. connect_with_timeout c s (check_kwargs c) (check_version_body s) t = (r0, t @ t0)"
    using appends_connect_with_timeout[OF appends_check_version_body] c0 by (rule appendsD)
  show "fst (check_version c s tr) = fst (check_version c s []) \<and>
        snd (check_version c s tr) = tr @ snd (check_version c s [])"
    by (cases r0) (simp_all add: check_version_def t)
qed

lemma check_version_returns: "fst (check_version c s tr) = Inr ()"
  by (simp add: check_version_def split: prod.splits sum.splits)

subsection \<open>Startup\<close>

lemma default_interval: "str_int (5 * 60) = ''300''" "str_int 300 = ''300''"
  by code_simp+


text \<open>
  \<open>load_config\<close> returns a configuration exactly when \<open>int\<close> accepts the three texts
  handed to it, and the configuration holds the three integers it returned.
\<close>

lemma load_config_Inr:
  "(load_config int_of e = Inr c) =
     (\<exists>p i t. int_of (getenv e ''DB_PORT'' ''5432'') = Some p \<and>
              int_of (getenv e ''PING_INTERVAL_SECONDS'' ''300'') = Some i \<and>
              int_of (getenv e ''CONNECT_TIMEOUT_SECONDS'' ''10'') = Some t \<and>
              c = \<lparr> DB_HOST = getenv e ''DB_HOST'' ''localhost'', DB_PORT = p,
                    DB_NAME = e ''DB_NAME'', DB_USER = e ''DB_USER'', DB_PASS = e ''DB_PASS'',
                    PING_INTERVAL = i, CONNECT_TIMEOUT = t,
                    LOG_FILE = getenv e ''LOG_FILE'' [] \<rparr>)"
  by (auto simp: load_config_def default_interval split: option.splits)

lemma monitor_printed: "printed (monitor c fs sigs its) = []"
  by (simp add: monitor_def nothing_done_def split: prod.splits sum.splits progress.splits)

lemma monitor_exit_code: "exit_code (monitor c fs sigs its) \<in> {None, Some 0, Some 1}"
  by (simp add: monitor_def nothing_done_def split: prod.splits sum.splits progress.splits)

lemma huge_literal_length: "length huge_literal = 310"
  by (simp add: huge_literal_def)

lemma int_table_simps:
  "int_table ''5432'' = Some 5432" "int_table ''300'' = Some 300" "int_table ''10'' = Some 10"
  "int_table ''abc'' = None" "int_table huge_literal = Some (10 ^ 309)"
proof -
  have n: "s \<noteq> huge_literal" if "length s < 310" for s
    using that huge_literal_length by auto
  show "int_table ''5432'' = Some 5432" "int_table ''300'' = Some 300"
    "int_table ''10'' = Some 10" "int_table ''abc'' = None"
    by (simp_all add: int_table_def n)
  show "int_table huge_literal = Some (10 ^ 309)"
    by (simp add: int_table_def)
qed

text \<open>
  Claim C1, as amended. The three integer options are read first. When \<open>int\<close> accepts
  all three: if \<open>DB_USER\<close> or \<open>DB_PASS\<close> is unset or empty, the process prints the
  diagnostic to standard error and exits with code 2, with no handler added, no signal
  handler installed, no file-system call and no event of the loop; if both are non-empty,
  the check passes: the process goes on with logger setup and the monitor, on the
  configuration read, prints nothing to standard error directly and never exits with code
  2. When \<open>int\<close> refuses one of the three, the process ends with the \<open>ValueError\<close> of the
  first one refused and code 1, whatever the credentials are: nothing is printed by the
  check, and nothing of the logger, the signal handlers or the loop is reached.
\<close>

theorem startup_credential_check:
  "(\<forall>p i t.
      int_of (getenv e ''DB_PORT'' ''5432'') = Some p \<and>
      int_of (getenv e ''PING_INTERVAL_SECONDS'' ''300'') = Some i \<and>
      int_of (getenv e ''CONNECT_TIMEOUT_SECONDS'' ''10'') = Some t \<longrightarrow>
        ((\<not> truthy (e ''DB_USER'') \<or> \<not> truthy (e ''DB_PASS'')) \<longrightarrow>
           process int_of e fs sigs its =
             \<lparr> exit_code = Some 2, uncaught = None, printed = [credentials_message],
               fs_calls = [], handlers = [], installed = [], events = [] \<rparr>) \<and>
        (truthy (e ''DB_USER'') \<and> truthy (e ''DB_PASS'') \<longrightarrow>
           process int_of e fs sigs its =
             monitor \<lparr> DB_HOST = getenv e ''DB_HOST'' ''localhost'', DB_PORT = p,
                       DB_NAME = e ''DB_NAME'', DB_USER = e ''DB_USER'', DB_PASS = e ''DB_PASS'',
                       PING_INTERVAL = i, CONNECT_TIMEOUT = t,
                       LOG_FILE = getenv e ''LOG_FILE'' [] \<rparr> fs sigs its \<and>
           printed (process int_of e fs sigs its) = [] \<and>
           exit_code (process int_of e fs sigs its) \<noteq> Some 2)) \<and>
   (int_of (getenv e ''DB_PORT'' ''5432'') = None \<or>
    int_of (getenv e ''PING_INTERVAL_SECONDS'' ''300'') = None \<or>
    int_of (getenv e ''CONNECT_TIMEOUT_SECONDS'' ''10'') = None \<longrightarrow>
      process int_of e fs sigs its =
        \<lparr> exit_code = Some 1,
          uncaught = Some (ValueError
            (if int_of (getenv e ''DB_PORT'' ''5432'') = None
             then getenv e ''DB_PORT'' ''5432''
             else if int_of (getenv e ''PING_INTERVAL_SECONDS'' ''300'') = None
             then getenv e ''PING_INTERVAL_SECONDS'' ''300''
             else getenv e ''CONNECT_TIMEOUT_SECONDS'' ''10'')),
          printed = [], fs_calls = [], handlers = [], installed = [], events = [] \<rparr>)"
proof -
  have ok: "((\<not> truthy (e ''DB_USER'') \<or> \<not> truthy (e ''DB_PASS'')) \<longrightarrow>
           process int_of e fs sigs its =
             \<lparr> exit_code = Some 2, uncaught = None, printed = [credentials_message],
               fs_calls = [], handlers = [], installed = [], events = [] \<rparr>) \<and>
        (truthy (e ''DB_USER'') \<and> truthy (e ''DB_PASS'') \<longrightarrow>
           process int_of e fs sigs its =
             monitor \<lparr> DB_HOST = getenv e ''DB_HOST'' ''localhost'', DB_PORT = p,
                       DB_NAME = e ''DB_NAME'', DB_USER = e ''DB_USER'', DB_PASS = e ''DB_PASS'',
                       PING_INTERVAL = i, CONNECT_TIMEOUT = t,
                       LOG_FILE = getenv e ''LOG_FILE'' [] \<rparr> fs sigs its \<and>
           printed (process int_of e fs sigs its) = [] \<and>
           exit_code (process int_of e fs sigs its) \<noteq> Some 2)"
    if h: "int_of (getenv e ''DB_PORT'' ''5432'') = Some p \<and>
           int_of (getenv e ''PING_INTERVAL_SECONDS'' ''300'') = Some i \<and>
           int_of (getenv e ''CONNECT_TIMEOUT_SECONDS'' ''10'') = Some t" for p i t
  proof -
    let ?c = "\<lparr> DB_HOST = getenv e ''DB_HOST'' ''localhost'', DB_PORT = p,
                DB_NAME = e ''DB_NAME'', DB_USER = e ''DB_USER'', DB_PASS = e ''DB_PASS'',
                PING_INTERVAL = i, CONNECT_TIMEOUT = t,
                LOG_FILE = getenv e ''LOG_FILE'' [] \<rparr>"
    have lc: "load_config int_of e = Inr ?c"
      using h by (simp add: load_config_Inr)
    have miss: "credentials_missing ?c = (\<not> truthy (e ''DB_USER'') \<or> \<not> truthy (e ''DB_PASS''))"
      by (simp add: credentials_missing_def)
    have code: "exit_code (monitor ?c fs sigs its) \<noteq> Some 2"
      using monitor_exit_code[of ?c fs sigs its] by auto
    show ?thesis
      using miss code by (auto simp: process_def lc monitor_printed nothing_done_def)
  qed
  have bad: "process int_of e fs sigs its =
        \<lparr> exit_code = Some 1,
          uncaught = Some (ValueError
            (if int_of (getenv e ''DB_PORT'' ''5432'') = None
             then getenv e ''DB_PORT'' ''5432''
             else if int_of (getenv e ''PING_INTERVAL_SECONDS'' ''300'') = None
             then getenv e ''PING_INTERVAL_SECONDS'' ''300''
             else getenv e ''CONNECT_TIMEOUT_SECONDS'' ''10'')),
          printed = [], fs_calls = [], handlers = [], installed = [], events = [] \<rparr>"
    if h: "int_of (getenv e ''DB_PORT'' ''5432'') = None \<or>
           int_of (getenv e ''PING_INTERVAL_SECONDS'' ''300'') = None \<or>
           int_of (getenv e ''CONNECT_TIMEOUT_SECONDS'' ''10'') = None"
    using h by (auto simp: process_def load_config_def default_interval nothing_done_def
        split: option.splits)
  show ?thesis
    using ok bad by blast
qed

theorem startup_credential_check_witness:
  "int_table (getenv [''DB_USER'' \<mapsto> ''u''] ''DB_PORT'' ''5432'') = Some 5432 \<and>
   int_table (getenv [''DB_USER'' \<mapsto> ''u''] ''PING_INTERVAL_SECONDS'' ''300'') = Some 300 \<and>
   int_table (getenv [''DB_USER'' \<mapsto> ''u''] ''CONNECT_TIMEOUT_SECONDS'' ''10'') = Some 10 \<and>
   exit_code (process int_table [''DB_USER'' \<mapsto> ''u''] \<lparr> makedirs_r = None, open_r = None \<rparr> [] [])
     = Some 2 \<and>
   printed (process int_table [''DB_USER'' \<mapsto> ''u''] \<lparr> makedirs_r = None, open_r = None \<rparr> [] [])
     = [credentials_message] \<and>
   exit_code (process int_table [''DB_USER'' \<mapsto> ''u'', ''DB_PASS'' \<mapsto> ''p'']
                \<lparr> makedirs_r = None, open_r = None \<rparr> [] []) \<noteq> Some 2 \<and>
   int_table (getenv [''DB_USER'' \<mapsto> ''u'', ''DB_PASS'' \<mapsto> ''p'', ''CONNECT_TIMEOUT_SECONDS'' \<mapsto> ''abc'']
                ''CONNECT_TIMEOUT_SECONDS'' ''10'') = None \<and>
   exit_code (process int_table
                [''DB_USER'' \<mapsto> ''u'', ''DB_PASS'' \<mapsto> ''p'', ''CONNECT_TIMEOUT_SECONDS'' \<mapsto> ''abc'']
                \<lparr> makedirs_r = None, open_r = None \<rparr> [] []) = Some 1 \<and>
   uncaught (process int_table
                [''DB_USER'' \<mapsto> ''u'', ''DB_PASS'' \<mapsto> ''p'', ''CONNECT_TIMEOUT_SECONDS'' \<mapsto> ''abc'']
                \<lparr> makedirs_r = None, open_r = None \<rparr> [] []) = Some (ValueError ''abc'')"
proof -
  let ?fs = "\<lparr> makedirs_r = None, open_r = None \<rparr>"
  let ?a = "[''DB_USER'' \<mapsto> ''u'']"
  let ?b = "[''DB_USER'' \<mapsto> ''u'', ''DB_PASS'' \<mapsto> ''p'']"
  let ?d = "[''DB_USER'' \<mapsto> ''u'', ''DB_PASS'' \<mapsto> ''p'', ''CONNECT_TIMEOUT_SECONDS'' \<mapsto> ''abc'']"
  have ia: "int_table (getenv ?a ''DB_PORT'' ''5432'') = Some 5432 \<and>
            int_table (getenv ?a ''PING_INTERVAL_SECONDS'' ''300'') = Some 300 \<and>
            int_table (getenv ?a ''CONNECT_TIMEOUT_SECONDS'' ''10'') = Some 10"
    by (simp add: getenv_def int_table_simps)
  have ib: "int_table (getenv ?b ''DB_PORT'' ''5432'') = Some 5432 \<and>
            int_table (getenv ?b ''PING_INTERVAL_SECONDS'' ''300'') = Some 300 \<and>
            int_table (getenv ?b ''CONNECT_TIMEOUT_SECONDS'' ''10'') = Some 10"
    by (simp add: getenv_def int_table_simps)
  have id: "int_table (getenv ?d ''DB_PORT'' ''5432'') = Some 5432"
    "int_table (getenv ?d ''PING_INTERVAL_SECONDS'' ''300'') = Some 300"
    "int_table (getenv ?d ''CONNECT_TIMEOUT_SECONDS'' ''10'') = None"
    "getenv ?d ''CONNECT_TIMEOUT_SECONDS'' ''10'' = ''abc''"
    by (simp_all add: getenv_def int_table_simps)
  have ta: "\<not> truthy (?a ''DB_PASS'')"
    by simp
  have tb: "truthy (?b ''DB_USER'') \<and> truthy (?b ''DB_PASS'')"
    by simp
  have pa: "process int_table ?a ?fs [] [] =
              \<lparr> exit_code = Some 2, uncaught = None, printed = [credentials_message],
                fs_calls = [], handlers = [], installed = [], events = [] \<rparr>"
    using ia ta startup_credential_check [of int_table ?a ?fs "[]" "[]"] by blast
  have pb: "exit_code (process int_table ?b ?fs [] []) \<noteq> Some 2"
    using ib tb startup_credential_check [of int_table ?b ?fs "[]" "[]"] by blast
  have pd: "process int_table ?d ?fs [] [] =
        \<lparr> exit_code = Some 1,
          uncaught = Some (ValueError
            (if int_table (getenv ?d ''DB_PORT'' ''5432'') = None
             then getenv ?d ''DB_PORT'' ''5432''
             else if int_table (getenv ?d ''PING_INTERVAL_SECONDS'' ''300'') = None
             then getenv ?d ''PING_INTERVAL_SECONDS'' ''300''
             else getenv ?d ''CONNECT_TIMEOUT_SECONDS'' ''10'')),
          printed = [], fs_calls = [], handlers = [], installed = [], events = [] \<rparr>"
    using id(3) startup_credential_check [of int_table ?d ?fs "[]" "[]"] by blast
  have pd': "exit_code (process int_table ?d ?fs [] []) = Some 1 \<and>
             uncaught (process int_table ?d ?fs [] []) = Some (ValueError ''abc'')"
    unfolding pd by (simp add: id)
  show ?thesis
    using ia pa pb id(3) pd' by simp
qed

text \<open>
  Claim C1 as stated fails where an integer option is malformed: with \<open>DB_USER\<close> unset
  and \<open>DB_PORT=abc\<close>, line 12 raises before line 20 is reached, nothing is printed by
  the check and the exit code is 1.
\<close>

theorem startup_malformed_port_counterexample:
  "\<not> truthy ([''DB_PORT'' \<mapsto> ''abc''] ''DB_USER'') \<and>
   exit_code (process int_table [''DB_PORT'' \<mapsto> ''abc''] \<lparr> makedirs_r = None, open_r = None \<rparr> [] [])
     = Some 1 \<and>
   uncaught (process int_table [''DB_PORT'' \<mapsto> ''abc''] \<lparr> makedirs_r = None, open_r = None \<rparr> [] [])
     = Some (ValueError ''abc'') \<and>
   printed (process int_table [''DB_PORT'' \<mapsto> ''abc''] \<lparr> makedirs_r = None, open_r = None \<rparr> [] [])
     = []"
  by (simp add: process_def load_config_def getenv_def int_table_simps nothing_done_def)

subsection \<open>\<open>check_version\<close>\<close>

lemmas driver_defs = check_version_def connect_with_timeout_def set_statement_timeout_def
  check_version_body_def with_cursor_def call_def conn_close_eq

lemma is_Log_failure_log [simp]: "is_Log (failure_log e)"
  by (cases e) simp_all

lemma log_level_failure_log [simp]: "log_level (failure_log e) = Some ERROR"
  by (cases e) simp_all

lemma is_Log_version_log [simp]: "is_Log (version_log row)"
  by (cases row rule: version_log.cases) simp_all

lemma log_level_version_log: "log_level (version_log row) \<in> {Some WARNING, Some INFO}"
  by (cases row rule: version_log.cases) simp_all

lemma session_ready_iff:
  "session_ready s \<longleftrightarrow> connect_r s = None \<and> fst (set_statement_timeout c s tr) = Inr ()"
  by (cases "connect_r s"; cases "cursor1_r s"; cases "set_timeout_r s"; cases "commit_r s";
      cases "rollback_r s"; cases "cursor1_close_r s")
     (simp_all add: session_ready_def set_statement_timeout_def with_cursor_def call_def)

lemma check_version_query_ok:
  assumes "query_ok s row"
  shows "logged (snd (check_version c s [])) =
           version_log row # (case cursor2_close_r s of None \<Rightarrow> [] | Some e \<Rightarrow> [failure_log e])"
  using assms
  by (cases "set_timeout_r s"; cases "commit_r s"; cases "cursor2_close_r s")
     (auto simp: query_ok_def session_ready_def driver_defs logged_def)

lemma startswith_iff: "startswith s p \<longleftrightarrow> (\<exists>r. s = p @ r)"
  unfolding startswith_def by (metis append_eq_conv_conj append_take_drop_id)

lemma version_log_cases:
  "(row = None \<or> row = Some [] \<longrightarrow>
      version_log row = Log WARNING ''Connected but VERSION() returned empty result.'')"
  "(row = Some (v # vs) \<and> (\<exists>r. py_str v = ''PostgreSQL'' @ r) \<longrightarrow>
      version_log row = Log INFO (''Successful connection. VERSION: '' @ py_str v))"
  "(row = Some (v # vs) \<and> \<not> (\<exists>r. py_str v = ''PostgreSQL'' @ r) \<longrightarrow>
      version_log row = Log INFO (''Atypical VERSION response (no error): '' @ py_str v))"
  using startswith_iff[of "py_str v" "''PostgreSQL''"] by auto

text \<open>
  Claim C3. When the diagnostic query runs without an error and \<open>fetchone\<close> returns
  \<open>row\<close>, \<open>check_version\<close> logs the one record chosen by the row, and the only record
  that can follow it is the error of closing the cursor: apart from \<open>ERROR\<close> records
  the log of the call is exactly that one record. No row (or an empty one) gives the
  \<open>WARNING\<close>, a first column that starts with \<open>PostgreSQL\<close> gives the \<open>INFO\<close> success
  record with the whole string, any other first column gives the \<open>INFO\<close> atypical
  record; the three cases exclude each other and none of the three is an \<open>ERROR\<close>.
\<close>

theorem version_log_exactly_one:
  assumes "query_ok s row"
  shows "logged (snd (check_version c s [])) =
           version_log row # (case cursor2_close_r s of None \<Rightarrow> [] | Some e \<Rightarrow> [failure_log e]) \<and>
         filter (\<lambda>ev. log_level ev \<noteq> Some ERROR) (logged (snd (check_version c s []))) =
           [version_log row] \<and>
         (cursor2_close_r s = None \<longrightarrow> logged (snd (check_version c s [])) = [version_log row]) \<and>
         (row = None \<or> row = Some [] \<longrightarrow>
            version_log row = Log WARNING ''Connected but VERSION() returned empty result.'') \<and>
         (\<forall>v vs. row = Some (v # vs) \<and> (\<exists>r. py_str v = ''PostgreSQL'' @ r) \<longrightarrow>
            version_log row = Log INFO (''Successful connection. VERSION: '' @ py_str v)) \<and>
         (\<forall>v vs. row = Some (v # vs) \<and> \<not> (\<exists>r. py_str v = ''PostgreSQL'' @ r) \<longrightarrow>
            version_log row = Log INFO (''Atypical VERSION response (no error): '' @ py_str v))"
proof -
  have l: "logged (snd (check_version c s [])) =
           version_log row # (case cursor2_close_r s of None \<Rightarrow> [] | Some e \<Rightarrow> [failure_log e])"
    using assms by (rule check_version_query_ok)
  have lv: "log_level (version_log row) \<noteq> Some ERROR"
    using log_level_version_log[of row] by auto
  have f: "filter (\<lambda>ev. log_level ev \<noteq> Some ERROR) (logged (snd (check_version c s []))) =
           [version_log row]"
    unfolding l using lv by (simp split: option.splits)
  have n: "cursor2_close_r s = None \<longrightarrow> logged (snd (check_version c s [])) = [version_log row]"
    unfolding l by simp
  show ?thesis
    using l f n version_log_cases[of row] by blast
qed

theorem version_log_exactly_one_witness:
  "query_ok (healthy (Some [SqlText ''PostgreSQL 15.2''])) (Some [SqlText ''PostgreSQL 15.2'']) \<and>
   logged (snd (check_version example_config (healthy (Some [SqlText ''PostgreSQL 15.2''])) [])) =
     [Log INFO ''Successful connection. VERSION: PostgreSQL 15.2''] \<and>
   query_ok (healthy None) None \<and>
   logged (snd (check_version example_config (healthy None) [])) =
     [Log WARNING ''Connected but VERSION() returned empty result.'']"
proof -
  have a: "query_ok (healthy (Some [SqlText ''PostgreSQL 15.2''])) (Some [SqlText ''PostgreSQL 15.2''])"
    by (simp add: query_ok_def session_ready_def healthy_def)
  have b: "query_ok (healthy None) None"
    by (simp add: query_ok_def session_ready_def healthy_def)
  have ca: "cursor2_close_r (healthy (Some [SqlText ''PostgreSQL 15.2''])) = None"
    and cb: "cursor2_close_r (healthy None) = None"
    by (simp_all add: healthy_def)
  show ?thesis
    using a b ca cb
      version_log_exactly_one [OF a, of example_config]
      version_log_exactly_one [OF b, of example_config]
    by (simp add: startswith_def)
qed

lemma failure_log_not_Close [simp]: "failure_log e \<noteq> Close"
  by (cases e) simp_all

lemma version_log_not_Close [simp]: "version_log row \<noteq> Close"
  by (cases row rule: version_log.cases) simp_all

lemma setup_no_close:
  "count_list (snd (set_statement_timeout c s tr)) Close = count_list tr Close"
  by (cases "cursor1_r s"; cases "set_timeout_r s"; cases "commit_r s"; cases "rollback_r s";
      cases "cursor1_close_r s")
     (simp_all add: set_statement_timeout_def with_cursor_def call_def)

lemma body_no_close:
  "count_list (snd (check_version_body s tr)) Close = count_list tr Close"
  by (cases "cursor2_r s"; cases "execute_r s"; cases "fetchone_r s"; cases "cursor2_close_r s")
     (simp_all add: check_version_body_def with_cursor_def call_def)

lemma connect_with_timeout_established:
  assumes "connect_r s = None"
  shows "connect_with_timeout c s k body tr =
           (case set_statement_timeout c s (tr @ [Connect (CONNECT_TIMEOUT c) k]) of
              (Inl e, tr2) \<Rightarrow> (Inl e, tr2 @ [Close])
            | (Inr u, tr2) \<Rightarrow> (fst (body tr2), snd (body tr2) @ [Close]))"
  using assms
  by (simp add: connect_with_timeout_def call_def conn_close_eq split: prod.splits sum.splits)
     (metis conn_close_eq prod.collapse)

lemma check_version_close_count:
  "count_list (snd (check_version c s [])) Close = (if connect_r s = None then 1 else 0)"
proof (cases "connect_r s")
  case None
  obtain r tr2 where t: "set_statement_timeout c s [Connect (CONNECT_TIMEOUT c) (check_kwargs c)] = (r, tr2)"
    by (cases "set_statement_timeout c s [Connect (CONNECT_TIMEOUT c) (check_kwargs c)]")
  have n2: "count_list tr2 Close = 0"
    using setup_no_close[of c s "[Connect (CONNECT_TIMEOUT c) (check_kwargs c)]"] t by simp
  obtain rb trb where b: "check_version_body s tr2 = (rb, trb)"
    by (cases "check_version_body s tr2")
  have nb: "count_list trb Close = 0"
    using body_no_close[of s tr2] b n2 by simp
  show ?thesis
    using None n2 nb
    by (cases r; cases rb)
       (simp_all add: check_version_def connect_with_timeout_established[OF None] t b)
next
  case (Some e)
  then show ?thesis
    by (simp add: check_version_def connect_with_timeout_def call_def)
qed

text \<open>
  Claim C5. Once \<open>psycopg2.connect\<close> has returned, every way out of the scope of
  \<open>connect_with_timeout\<close> ends with the call of \<open>conn.close()\<close>: it is the last event
  of the scope, whether the statement-timeout block raised, the body raised or the body
  returned, and \<open>check_version\<close> calls it exactly once. The answer of \<open>close\<close> has no
  effect on the result or on the events: an exception of \<open>close\<close> is passed over, and
  the scope raises what the block or the body raised and nothing else. When \<open>connect\<close>
  itself raises there is no connection and nothing is closed.
\<close>

theorem connection_closed_on_every_path:
  "(connect_r s = None \<longrightarrow>
      (\<exists>tr0. snd (connect_with_timeout c s k body tr) = tr0 @ [Close]) \<and>
      fst (connect_with_timeout c s k body tr) =
        (case set_statement_timeout c s (tr @ [Connect (CONNECT_TIMEOUT c) k]) of
           (Inl e, tr2) \<Rightarrow> Inl e
         | (Inr u, tr2) \<Rightarrow> fst (body tr2)) \<and>
      count_list (snd (check_version c s [])) Close = 1) \<and>
   connect_with_timeout c (s \<lparr> close_r := x \<rparr>) k body tr = connect_with_timeout c s k body tr \<and>
   check_version c (s \<lparr> close_r := x \<rparr>) tr = check_version c s tr \<and>
   (connect_r s \<noteq> None \<longrightarrow>
      snd (connect_with_timeout c s k body tr) = tr @ [Connect (CONNECT_TIMEOUT c) k])"
proof -
  have est: "connect_r s = None \<Longrightarrow>
      (\<exists>tr0. snd (connect_with_timeout c s k body tr) = tr0 @ [Close]) \<and>
      fst (connect_with_timeout c s k body tr) =
        (case set_statement_timeout c s (tr @ [Connect (CONNECT_TIMEOUT c) k]) of
           (Inl e, tr2) \<Rightarrow> Inl e
         | (Inr u, tr2) \<Rightarrow> fst (body tr2))"
    by (simp add: connect_with_timeout_established split: prod.splits sum.splits)
  have st: "set_statement_timeout c (s \<lparr> close_r := x \<rparr>) = set_statement_timeout c s"
    by (rule ext) (simp add: set_statement_timeout_def with_cursor_def call_def split: option.splits)
  have bd: "check_version_body (s \<lparr> close_r := x \<rparr>) = check_version_body s"
    by (rule ext) (simp add: check_version_body_def with_cursor_def call_def split: option.splits)
  have cc: "conn_close (s \<lparr> close_r := x \<rparr>) p = conn_close s p" for p
    by (cases p) (simp add: conn_close_eq)
  have sw: "connect_with_timeout c (s \<lparr> close_r := x \<rparr>) k body tr = connect_with_timeout c s k body tr"
    for body k tr
    by (simp add: connect_with_timeout_def st cc call_def split: option.splits prod.splits sum.splits)
  have swc: "check_version c (s \<lparr> close_r := x \<rparr>) tr = check_version c s tr"
    by (simp add: check_version_def sw bd)
  have nc: "connect_r s \<noteq> None \<Longrightarrow>
      snd (connect_with_timeout c s k body tr) = tr @ [Connect (CONNECT_TIMEOUT c) k]"
    by (auto simp: connect_with_timeout_def call_def)
  show ?thesis
    using est sw swc nc check_version_close_count[of c s] by simp
qed

theorem connection_closed_on_every_path_witness:
  "connect_r ((healthy None) \<lparr> execute_r := Some (DatabaseError ''boom''),
                                 close_r := Some (OperationalError ''gone'') \<rparr>) = None \<and>
   count_list (snd (check_version example_config
                      ((healthy None) \<lparr> execute_r := Some (DatabaseError ''boom''),
                                        close_r := Some (OperationalError ''gone'') \<rparr>) [])) Close = 1 \<and>
   snd (check_version example_config
          ((healthy None) \<lparr> execute_r := Some (DatabaseError ''boom''),
                            close_r := Some (OperationalError ''gone'') \<rparr>) []) =
     [Connect 10 (check_kwargs example_config), Cursor,
      Execute ''SET statement_timeout = %s;'' [10000], Commit, CursorClose,
      Cursor, Execute ''SELECT VERSION();'' [], CursorClose, Close,
      Log ERROR ''Database error: boom'']"
proof -
  have a: "connect_r ((healthy None) \<lparr> execute_r := Some (DatabaseError ''boom''),
                                        close_r := Some (OperationalError ''gone'') \<rparr>) = None"
    by (simp add: healthy_def)
  have b: "snd (check_version example_config
          ((healthy None) \<lparr> execute_r := Some (DatabaseError ''boom''),
                            close_r := Some (OperationalError ''gone'') \<rparr>) []) =
     [Connect 10 (check_kwargs example_config), Cursor,
      Execute ''SET statement_timeout = %s;'' [10000], Commit, CursorClose,
      Cursor, Execute ''SELECT VERSION();'' [], CursorClose, Close,
      Log ERROR ''Database error: boom'']"
    by (simp add: driver_defs healthy_def example_config_def)
  show ?thesis
    using a b
      connection_closed_on_every_path
        [of "(healthy None) \<lparr> execute_r := Some (DatabaseError ''boom''),
                               close_r := Some (OperationalError ''gone'') \<rparr>"
            example_config "check_kwargs example_config"
            "check_version_body ((healthy None) \<lparr> execute_r := Some (DatabaseError ''boom''),
                               close_r := Some (OperationalError ''gone'') \<rparr>)" "[]"]
    by blast
qed

lemma logged_simps [simp]:
  "logged [] = []"
  "logged (xs @ ys) = logged xs @ logged ys"
  "logged (x # xs) = (if is_Log x then x # logged xs else logged xs)"
  by (simp_all add: logged_def)

lemma setup_rejected:
  assumes "cursor1_r s = None" and "set_timeout_r s \<noteq> None \<or> commit_r s \<noteq> None" and "rollback_r s = None"
  shows "fst (set_statement_timeout c s tr) =
         fst (set_statement_timeout c (s \<lparr> set_timeout_r := None, commit_r := None \<rparr>) tr)"
  using assms
  by (cases "set_timeout_r s"; cases "commit_r s"; cases "cursor1_close_r s")
     (simp_all add: set_statement_timeout_def with_cursor_def call_def)

lemma setup_logged: "logged (snd (set_statement_timeout c s tr)) = logged tr"
  by (cases "cursor1_r s"; cases "set_timeout_r s"; cases "commit_r s"; cases "rollback_r s";
      cases "cursor1_close_r s")
     (simp_all add: set_statement_timeout_def with_cursor_def call_def)

lemma setup_starts:
  assumes "cursor1_r s = None"
  shows "\<exists>rest. snd (set_statement_timeout c s tr) =
           tr @ [Cursor, Execute ''SET statement_timeout = %s;'' [CONNECT_TIMEOUT c * 1000]] @ rest"
    and "set_timeout_r s \<noteq> None \<Longrightarrow> \<exists>rest. snd (set_statement_timeout c s tr) =
           tr @ [Cursor, Execute ''SET statement_timeout = %s;'' [CONNECT_TIMEOUT c * 1000], Rollback] @ rest"
  using assms
  by (cases "set_timeout_r s"; cases "commit_r s"; cases "rollback_r s"; cases "cursor1_close_r s";
      simp add: set_statement_timeout_def with_cursor_def call_def)+

lemma body_script_indep:
  "check_version_body (s \<lparr> set_timeout_r := a, commit_r := b \<rparr>) = check_version_body s"
  by (rule ext) (simp add: check_version_body_def with_cursor_def call_def split: option.splits)

text \<open>The events of one call, from the statement-timeout block and the body.\<close>

lemma check_version_trace:
  assumes "connect_r s = None"
  shows "snd (check_version c s []) =
           snd (set_statement_timeout c s [Connect (CONNECT_TIMEOUT c) (check_kwargs c)]) @
           (case fst (set_statement_timeout c s [Connect (CONNECT_TIMEOUT c) (check_kwargs c)]) of
              Inl e \<Rightarrow> [Close, failure_log e]
            | Inr u \<Rightarrow> snd (check_version_body s []) @ [Close] @
                        (case fst (check_version_body s []) of Inl e \<Rightarrow> [failure_log e] | Inr u \<Rightarrow> []))"
proof -
  obtain r tr2 where t: "set_statement_timeout c s [Connect (CONNECT_TIMEOUT c) (check_kwargs c)] = (r, tr2)"
    by (cases "set_statement_timeout c s [Connect (CONNECT_TIMEOUT c) (check_kwargs c)]")
  obtain rb tb where b0: "check_version_body s [] = (rb, tb)"
    by (cases "check_version_body s []")
  have b: "check_version_body s tr2 = (rb, tr2 @ tb)"
    using appends_check_version_body b0 by (rule appendsD)
  show ?thesis
    by (cases r; cases rb)
       (simp_all add: check_version_def connect_with_timeout_established[OF assms] t b b0)
qed

lemma check_version_logged:
  assumes "connect_r s = None"
  shows "logged (snd (check_version c s [])) =
           (case fst (set_statement_timeout c s [Connect (CONNECT_TIMEOUT c) (check_kwargs c)]) of
              Inl e \<Rightarrow> [failure_log e]
            | Inr u \<Rightarrow> logged (snd (check_version_body s [])) @
                        (case fst (check_version_body s []) of Inl e \<Rightarrow> [failure_log e] | Inr u \<Rightarrow> []))"
  unfolding check_version_trace[OF assms]
  by (simp add: setup_logged split: sum.splits)

text \<open>
  Claim C7. Right after \<open>connect\<close> has returned and the cursor is open, the first
  statement sent is \<open>SET statement_timeout\<close> with \<open>CONNECT_TIMEOUT * 1000\<close>
  milliseconds. When the server rejects it, the next call is \<open>rollback\<close>; when that
  returns, the rejection leaves no trace in the log: the records of the call are those of
  the same script with the setting accepted, and a query that succeeds logs its one
  record and nothing else.
\<close>

theorem statement_timeout_best_effort:
  "(connect_r s = None \<and> cursor1_r s = None \<longrightarrow>
      take 3 (snd (check_version c s [])) =
        [Connect (CONNECT_TIMEOUT c) (check_kwargs c), Cursor,
         Execute ''SET statement_timeout = %s;'' [CONNECT_TIMEOUT c * 1000]]) \<and>
   (connect_r s = None \<and> cursor1_r s = None \<and> set_timeout_r s \<noteq> None \<longrightarrow>
      take 4 (snd (check_version c s [])) =
        [Connect (CONNECT_TIMEOUT c) (check_kwargs c), Cursor,
         Execute ''SET statement_timeout = %s;'' [CONNECT_TIMEOUT c * 1000], Rollback]) \<and>
   (set_timeout_r s \<noteq> None \<and> rollback_r s = None \<longrightarrow>
      logged (snd (check_version c s [])) =
        logged (snd (check_version c (s \<lparr> set_timeout_r := None, commit_r := None \<rparr>) []))) \<and>
   (set_timeout_r s \<noteq> None \<and> query_ok s row \<and> cursor2_close_r s = None \<longrightarrow>
      logged (snd (check_version c s [])) = [version_log row])"
proof -
  have p1: "connect_r s = None \<and> cursor1_r s = None \<longrightarrow>
      take 3 (snd (check_version c s [])) =
        [Connect (CONNECT_TIMEOUT c) (check_kwargs c), Cursor,
         Execute ''SET statement_timeout = %s;'' [CONNECT_TIMEOUT c * 1000]]"
  proof
    assume h: "connect_r s = None \<and> cursor1_r s = None"
    then obtain rest where "snd (set_statement_timeout c s [Connect (CONNECT_TIMEOUT c) (check_kwargs c)]) =
        [Connect (CONNECT_TIMEOUT c) (check_kwargs c)] @
        [Cursor, Execute ''SET statement_timeout = %s;'' [CONNECT_TIMEOUT c * 1000]] @ rest"
      using setup_starts(1)[of s c "[Connect (CONNECT_TIMEOUT c) (check_kwargs c)]"] by blast
    then show "take 3 (snd (check_version c s [])) =
        [Connect (CONNECT_TIMEOUT c) (check_kwargs c), Cursor,
         Execute ''SET statement_timeout = %s;'' [CONNECT_TIMEOUT c * 1000]]"
      using h by (simp add: check_version_trace)
  qed
  have p2: "connect_r s = None \<and> cursor1_r s = None \<and> set_timeout_r s \<noteq> None \<longrightarrow>
      take 4 (snd (check_version c s [])) =
        [Connect (CONNECT_TIMEOUT c) (check_kwargs c), Cursor,
         Execute ''SET statement_timeout = %s;'' [CONNECT_TIMEOUT c * 1000], Rollback]"
  proof
    assume h: "connect_r s = None \<and> cursor1_r s = None \<and> set_timeout_r s \<noteq> None"
    then obtain rest where "snd (set_statement_timeout c s [Connect (CONNECT_TIMEOUT c) (check_kwargs c)]) =
        [Connect (CONNECT_TIMEOUT c) (check_kwargs c)] @
        [Cursor, Execute ''SET statement_timeout = %s;'' [CONNECT_TIMEOUT c * 1000], Rollback] @ rest"
      using setup_starts(2)[of s c "[Connect (CONNECT_TIMEOUT c) (check_kwargs c)]"] by blast
    then show "take 4 (snd (check_version c s [])) =
        [Connect (CONNECT_TIMEOUT c) (check_kwargs c), Cursor,
         Execute ''SET statement_timeout = %s;'' [CONNECT_TIMEOUT c * 1000], Rollback]"
      using h by (simp add: check_version_trace)
  qed
  have p3: "logged (snd (check_version c s [])) =
        logged (snd (check_version c (s \<lparr> set_timeout_r := None, commit_r := None \<rparr>) []))"
    if h: "set_timeout_r s \<noteq> None \<and> rollback_r s = None"
  proof (cases "connect_r s")
    case None
    let ?s = "s \<lparr> set_timeout_r := None, commit_r := None \<rparr>"
    have n': "connect_r ?s = None" using None by simp
    show ?thesis
    proof (cases "cursor1_r s")
      case c1: None
      have "fst (set_statement_timeout c s [Connect (CONNECT_TIMEOUT c) (check_kwargs c)]) =
            fst (set_statement_timeout c ?s [Connect (CONNECT_TIMEOUT c) (check_kwargs c)])"
        using setup_rejected[OF c1, of c] h by simp
      then show ?thesis
        by (simp add: check_version_logged[OF None] check_version_logged[OF n'] body_script_indep
            cong: sum.case_cong)
    next
      case (Some e)
      then show ?thesis
        using None
        by (simp add: check_version_def connect_with_timeout_def set_statement_timeout_def
            with_cursor_def call_def conn_close_eq)
    qed
  next
    case (Some e)
    then show ?thesis
      by (simp add: check_version_def connect_with_timeout_def call_def)
  qed
  have p4: "set_timeout_r s \<noteq> None \<and> query_ok s row \<and> cursor2_close_r s = None \<longrightarrow>
      logged (snd (check_version c s [])) = [version_log row]"
    using check_version_query_ok[of s row c] by auto
  show ?thesis
    using p1 p2 p3 p4 by blast
qed

theorem statement_timeout_best_effort_witness:
  "set_timeout_r ((healthy (Some [SqlText ''PostgreSQL 15.2''])) \<lparr> set_timeout_r := Some (DatabaseError ''no'') \<rparr>) \<noteq> None \<and>
   query_ok ((healthy (Some [SqlText ''PostgreSQL 15.2''])) \<lparr> set_timeout_r := Some (DatabaseError ''no'') \<rparr>)
            (Some [SqlText ''PostgreSQL 15.2'']) \<and>
   take 4 (snd (check_version example_config
      ((healthy (Some [SqlText ''PostgreSQL 15.2''])) \<lparr> set_timeout_r := Some (DatabaseError ''no'') \<rparr>) [])) =
     [Connect 10 (check_kwargs example_config), Cursor,
      Execute ''SET statement_timeout = %s;'' [10000], Rollback] \<and>
   logged (snd (check_version example_config
      ((healthy (Some [SqlText ''PostgreSQL 15.2''])) \<lparr> set_timeout_r := Some (DatabaseError ''no'') \<rparr>) [])) =
     [Log INFO ''Successful connection. VERSION: PostgreSQL 15.2'']"
proof -
  let ?s = "(healthy (Some [SqlText ''PostgreSQL 15.2''])) \<lparr> set_timeout_r := Some (DatabaseError ''no'') \<rparr>"
  have a: "set_timeout_r ?s \<noteq> None" "connect_r ?s = None" "cursor1_r ?s = None"
    "cursor2_close_r ?s = None"
    by (simp_all add: healthy_def)
  have q: "query_ok ?s (Some [SqlText ''PostgreSQL 15.2''])"
    by (simp add: query_ok_def session_ready_def healthy_def)
  have v: "version_log (Some [SqlText ''PostgreSQL 15.2'']) =
           Log INFO ''Successful connection. VERSION: PostgreSQL 15.2''"
    by (simp add: startswith_def)
  have t: "CONNECT_TIMEOUT example_config = 10"
    by (simp add: example_config_def)
  show ?thesis
    using a q v t statement_timeout_best_effort [of ?s example_config "Some [SqlText ''PostgreSQL 15.2'']"]
    by simp
qed

subsection \<open>Signals, the clock and the sleep loop\<close>

lemma delivered_split:
  assumes "a \<le> b" and "b \<le> c"
  shows "(delivered sigs a c \<noteq> []) = (delivered sigs a b \<noteq> [] \<or> delivered sigs b c \<noteq> [])"
  using assms unfolding delivered_def filter_empty_conv by (auto; force)

lemma delivered_empty [simp]: "delivered sigs a a = []" "delivered [] a b = []"
  by (simp_all add: delivered_def)


lemma handlers_fold:
  "now (fold (\<lambda>p. signal_handler (snd p)) ps st) = now st"
  "stop_requested (fold (\<lambda>p. signal_handler (snd p)) ps st) = (stop_requested st \<or> ps \<noteq> [])"
  "trace (fold (\<lambda>p. signal_handler (snd p)) ps st) = trace st @ map (\<lambda>p. signal_log (snd p)) ps"
  by (induction ps arbitrary: st; simp add: signal_handler_def signal_log_def)+

lemma advance_now [simp]: "now (advance sigs d st) = now st + d"
  by (simp add: advance_def handlers_fold)

lemma advance_stop:
  "stop_requested (advance sigs d st) = (stop_requested st \<or> delivered sigs (now st) (now st + d) \<noteq> [])"
  by (simp add: advance_def handlers_fold)

lemma advance_trace:
  "trace (advance sigs d st) = trace st @ map (\<lambda>p. signal_log (snd p)) (delivered sigs (now st) (now st + d))"
  by (simp add: advance_def handlers_fold)

lemma sleep_loop_now_ge: "now st \<le> now (sleep_loop sigs t st)"
proof (induction sigs t st rule: sleep_loop.induct)
  case (1 sigs t st)
  show ?case
  proof (cases "t > 0 \<and> \<not> stop_requested st")
    case True
    then show ?thesis using 1 by (subst sleep_loop.simps) auto
  next
    case False
    then show ?thesis by (subst sleep_loop.simps) auto
  qed
qed

lemma sleep_loop_stop:
  "stop_requested (sleep_loop sigs t st) =
     (stop_requested st \<or> delivered sigs (now st) (now (sleep_loop sigs t st)) \<noteq> [])"
proof (induction sigs t st rule: sleep_loop.induct)
  case (1 sigs t st)
  show ?case
  proof (cases "t > 0 \<and> \<not> stop_requested st")
    case True
    let ?st1 = "advance sigs (min 1 t) (st\<lparr>trace := trace st @ [Sleep (min 1 t)]\<rparr>)"
    have e: "sleep_loop sigs t st = sleep_loop sigs (t - 1) ?st1"
      using True by (subst sleep_loop.simps) simp
    have n1: "now ?st1 = now st + min 1 t" by simp
    have le1: "now st \<le> now ?st1" using True by simp
    have le2: "now ?st1 \<le> now (sleep_loop sigs (t - 1) ?st1)" by (rule sleep_loop_now_ge)
    have s1: "stop_requested ?st1 = (delivered sigs (now st) (now ?st1) \<noteq> [])"
      using True by (simp add: advance_stop)
    show ?thesis
      unfolding e using 1[OF True] s1 delivered_split[OF le1 le2, of sigs] True by simp
  next
    case False
    then show ?thesis by (subst (1 2) sleep_loop.simps) auto
  qed
qed




subsection \<open>One iteration\<close>

lemma idle_simps [simp]:
  "idle []"
  "idle (xs @ ys) = (idle xs \<and> idle ys)"
  "idle (x # xs) = ((is_Sleep x \<or> is_Log x) \<and> idle xs)"
  by (simp_all add: idle_def)






lemma check_version_snd: "snd (check_version c s tr) = tr @ snd (check_version c s [])"
  using appends_check_version[of c s] unfolding appends_def by blast


text \<open>One iteration, as the check followed by the passing of time.\<close>

lemma iteration_eq:
  "iteration c sigs s dur st =
     (let st1 = advance sigs dur (st \<lparr> trace := trace st @ snd (check_version c s []) \<rparr>)
      in if float_overflow (PING_INTERVAL c) then (Some overflow_error, st1)
         else (None,
               if real_of_int (PING_INTERVAL c) - (now st1 - now st) > 0
               then sleep_loop sigs (real_of_int (PING_INTERVAL c) - (now st1 - now st)) st1
               else st1))"
proof -
  obtain r tr where ch: "check_version c s (trace st) = (r, tr)"
    by (cases "check_version c s (trace st)")
  have r: "r = Inr ()" using check_version_returns[of c s "trace st"] ch by simp
  have tr: "tr = trace st @ snd (check_version c s [])"
    using check_version_snd[of c s "trace st"] ch by simp
  show ?thesis
    by (simp add: iteration_def ch r tr Let_def max_def)
qed

lemma iteration_raise:
  assumes "float_overflow (PING_INTERVAL c)"
  shows "iteration c sigs s dur st =
           (Some overflow_error,
            advance sigs dur (st \<lparr> trace := trace st @ snd (check_version c s []) \<rparr>))"
  using assms by (simp add: iteration_eq Let_def)

lemma iteration_sleep:
  assumes "\<not> float_overflow (PING_INTERVAL c)"
  shows "iteration c sigs s dur st =
           (None,
            if real_of_int (PING_INTERVAL c) - dur > 0
            then sleep_loop sigs (real_of_int (PING_INTERVAL c) - dur)
                   (advance sigs dur (st \<lparr> trace := trace st @ snd (check_version c s []) \<rparr>))
            else advance sigs dur (st \<lparr> trace := trace st @ snd (check_version c s []) \<rparr>))"
  using assms by (simp add: iteration_eq Let_def)


lemma iteration_now_ge:
  assumes "0 \<le> dur"
  shows "now st \<le> now (snd (iteration c sigs s dur st))"
proof -
  let ?st1 = "advance sigs dur (st \<lparr> trace := trace st @ snd (check_version c s []) \<rparr>)"
  have a: "now st \<le> now ?st1" using assms by simp
  have b: "now ?st1 \<le> now (sleep_loop sigs t ?st1)" for t by (rule sleep_loop_now_ge)
  show ?thesis
    using a b[of "real_of_int (PING_INTERVAL c) - (now ?st1 - now st)"]
    by (simp add: iteration_eq Let_def del: advance_now)
qed

lemma iteration_stop:
  assumes "0 \<le> dur"
  shows "stop_requested (snd (iteration c sigs s dur st)) =
           (stop_requested st \<or>
            delivered sigs (now st) (now (snd (iteration c sigs s dur st))) \<noteq> [])"
proof -
  let ?st0 = "st \<lparr> trace := trace st @ snd (check_version c s []) \<rparr>"
  let ?st1 = "advance sigs dur ?st0"
  have a: "now st \<le> now ?st1" using assms by simp
  have s1: "stop_requested ?st1 = (stop_requested st \<or> delivered sigs (now st) (now ?st1) \<noteq> [])"
    by (simp add: advance_stop)
  show ?thesis
  proof (cases "\<not> float_overflow (PING_INTERVAL c) \<and> real_of_int (PING_INTERVAL c) - dur > 0")
    case True
    let ?t = "real_of_int (PING_INTERVAL c) - dur"
    have e: "snd (iteration c sigs s dur st) = sleep_loop sigs ?t ?st1"
      using True by (simp add: iteration_sleep)
    have b: "now ?st1 \<le> now (sleep_loop sigs ?t ?st1)" by (rule sleep_loop_now_ge)
    show ?thesis
      unfolding e using sleep_loop_stop[of sigs ?t ?st1] s1 delivered_split[OF a b, of sigs]
      by blast
  next
    case False
    then have e: "snd (iteration c sigs s dur st) = ?st1"
      by (cases "float_overflow (PING_INTERVAL c)") (simp_all add: iteration_raise iteration_sleep)
    show ?thesis unfolding e using s1 by blast
  qed
qed





subsection \<open>The outer loop\<close>


lemma main_while_step:
  assumes "\<not> stop_requested st"
  shows "main_while c sigs (x # xs) st =
           (if float_overflow (PING_INTERVAL c)
            then Raised overflow_error (snd (iteration c sigs (fst x) (snd x) st))
            else main_while c sigs xs (snd (iteration c sigs (fst x) (snd x) st)))"
proof (cases "float_overflow (PING_INTERVAL c)")
  case True
  then show ?thesis using assms by (simp add: iteration_raise)
next
  case False
  then show ?thesis using assms by (simp add: iteration_sleep)
qed

lemma main_while_raised:
  "has_raised (main_while c sigs its st) \<Longrightarrow> float_overflow (PING_INTERVAL c)"
proof (induction its arbitrary: st)
  case Nil
  then show ?case by (simp split: if_splits)
next
  case (Cons x xs)
  show ?case
  proof (cases "stop_requested st")
    case True
    then show ?thesis using Cons.prems by simp
  next
    case False
    show ?thesis
    proof (rule ccontr)
      assume n: "\<not> float_overflow (PING_INTERVAL c)"
      have "main_while c sigs (x # xs) st =
            main_while c sigs xs (snd (iteration c sigs (fst x) (snd x) st))"
        using main_while_step[OF False, of c sigs x xs] n by simp
      then show False using Cons.IH Cons.prems n by simp
    qed
  qed
qed

lemma main_while_returned:
  "has_returned (main_while c sigs its st) =
     (stop_requested (state_of (main_while c sigs its st)) \<and> \<not> has_raised (main_while c sigs its st))"
proof (induction its arbitrary: st)
  case Nil
  then show ?case by simp
next
  case (Cons x xs)
  show ?case
  proof (cases "stop_requested st")
    case True
    then show ?thesis by simp
  next
    case False
    show ?thesis
      unfolding main_while_step[OF False] using Cons.IH by simp
  qed
qed

lemma main_while_now_ge:
  assumes "\<forall>x\<in>set its. 0 \<le> snd x"
  shows "now st \<le> now (state_of (main_while c sigs its st))"
  using assms
proof (induction its arbitrary: st)
  case Nil
  then show ?case by simp
next
  case (Cons x xs)
  let ?st1 = "snd (iteration c sigs (fst x) (snd x) st)"
  have a: "now st \<le> now ?st1"
    using Cons.prems by (intro iteration_now_ge) simp
  have b: "now ?st1 \<le> now (state_of (main_while c sigs xs ?st1))"
    using Cons.prems by (intro Cons.IH) simp
  show ?case
  proof (cases "stop_requested st")
    case True
    then show ?thesis by simp
  next
    case False
    show ?thesis unfolding main_while_step[OF False] using a b by simp
  qed
qed

lemma main_while_stop:
  assumes "\<forall>x\<in>set its. 0 \<le> snd x"
  shows "stop_requested (state_of (main_while c sigs its st)) =
           (stop_requested st \<or> delivered sigs (now st) (now (state_of (main_while c sigs its st))) \<noteq> [])"
  using assms
proof (induction its arbitrary: st)
  case Nil
  then show ?case by simp
next
  case (Cons x xs)
  let ?st1 = "snd (iteration c sigs (fst x) (snd x) st)"
  show ?case
  proof (cases "stop_requested st")
    case True
    then show ?thesis by simp
  next
    case False
    have d: "0 \<le> snd x" and r: "\<forall>x\<in>set xs. 0 \<le> snd x" using Cons.prems by simp_all
    have a: "now st \<le> now ?st1" using d by (rule iteration_now_ge)
    have b: "now ?st1 \<le> now (state_of (main_while c sigs xs ?st1))"
      using r by (rule main_while_now_ge)
    have s1: "stop_requested ?st1 = (delivered sigs (now st) (now ?st1) \<noteq> [])"
      using iteration_stop[OF d, of c sigs "fst x" st] False by simp
    show ?thesis
    proof (cases "float_overflow (PING_INTERVAL c)")
      case True
      then show ?thesis unfolding main_while_step[OF False] using False s1 by simp
    next
      case nf: False
      show ?thesis
        unfolding main_while_step[OF False]
        using False nf Cons.IH[OF r, of ?st1] s1 delivered_split[OF a b, of sigs] by simp
    qed
  qed
qed







subsection \<open>Time slept, and leaving the loop\<close>

lemma slept_simps [simp]:
  "slept [] = 0"
  "slept (xs @ ys) = slept xs + slept ys"
  "slept (x # xs) = sleep_time x + slept xs"
  by (simp_all add: slept_def)

lemma slept_signal_logs: "slept (map (\<lambda>p. signal_log (snd p)) ps) = 0"
  by (induction ps) (simp_all add: signal_log_def)

lemma advance_slept [simp]: "slept (trace (advance sigs d st)) = slept (trace st)"
  by (simp add: advance_trace slept_signal_logs)




lemma sleeps_simps [simp]:
  "sleeps [] = []"
  "sleeps (xs @ ys) = sleeps xs @ sleeps ys"
  "sleeps (Sleep d # xs) = d # sleeps xs"
  by (simp_all add: sleeps_def)










subsection \<open>The sleep phase, the stop flag and failed checks\<close>

lemma sleep_loop_stopped: "stop_requested st \<Longrightarrow> sleep_loop sigs t st = st"
  by (subst sleep_loop.simps) simp

lemma iteration_keeps_stop:
  "stop_requested st \<Longrightarrow> stop_requested (snd (iteration c sigs s dur st))"
  by (simp add: iteration_eq Let_def advance_stop sleep_loop_stopped)

lemma main_while_keeps_stop:
  "stop_requested st \<Longrightarrow> stop_requested (state_of (main_while c sigs its st))"
  by (cases its) simp_all





text \<open>
  Claim C8. The flag is down when the process starts. The signal handler puts it up.
  Through every step of the run (time passing, the sleep loop, one iteration, the whole
  outer loop) the flag afterwards is up exactly when it was up before or a signal was
  delivered during the step, so it never goes down again and nothing but the handler
  puts it up; and the outer loop is left by its condition exactly when the flag is up,
  the one other way out being the exception of an interval that does not convert.
\<close>

theorem stop_flag_monotone:
  "\<not> stop_requested initial_state \<and>
   stop_requested (signal_handler sg st) \<and>
   stop_requested (advance sigs d st) =
     (stop_requested st \<or> delivered sigs (now st) (now st + d) \<noteq> []) \<and>
   stop_requested (sleep_loop sigs t st) =
     (stop_requested st \<or> delivered sigs (now st) (now (sleep_loop sigs t st)) \<noteq> []) \<and>
   (0 \<le> dur \<longrightarrow>
      stop_requested (snd (iteration c sigs s dur st)) =
        (stop_requested st \<or>
         delivered sigs (now st) (now (snd (iteration c sigs s dur st))) \<noteq> [])) \<and>
   ((\<forall>x\<in>set its. 0 \<le> snd x) \<longrightarrow>
      stop_requested (state_of (main_while c sigs its st)) =
        (stop_requested st \<or>
         delivered sigs (now st) (now (state_of (main_while c sigs its st))) \<noteq> [])) \<and>
   has_returned (main_while c sigs its st) =
     (stop_requested (state_of (main_while c sigs its st)) \<and>
      \<not> has_raised (main_while c sigs its st)) \<and>
   (has_raised (main_while c sigs its st) \<longrightarrow> float_overflow (PING_INTERVAL c)) \<and>
   (\<not> float_overflow (PING_INTERVAL c) \<longrightarrow>
      has_returned (main_while c sigs its st) =
        stop_requested (state_of (main_while c sigs its st))) \<and>
   (stop_requested st \<longrightarrow>
      stop_requested (advance sigs d st) \<and> stop_requested (sleep_loop sigs t st) \<and>
      stop_requested (snd (iteration c sigs s dur st)) \<and>
      stop_requested (state_of (main_while c sigs its st)))"
proof -
  have p1: "\<not> stop_requested initial_state"
    by (simp add: initial_state_def)
  have p2: "stop_requested (signal_handler sg st)"
    by (simp add: signal_handler_def)
  have p5: "0 \<le> dur \<longrightarrow>
      stop_requested (snd (iteration c sigs s dur st)) =
        (stop_requested st \<or>
         delivered sigs (now st) (now (snd (iteration c sigs s dur st))) \<noteq> [])"
    using iteration_stop[of dur c sigs s st] by blast
  have p6: "(\<forall>x\<in>set its. 0 \<le> snd x) \<longrightarrow>
      stop_requested (state_of (main_while c sigs its st)) =
        (stop_requested st \<or>
         delivered sigs (now st) (now (state_of (main_while c sigs its st))) \<noteq> [])"
    using main_while_stop[of its c sigs st] by blast
  have p7: "has_raised (main_while c sigs its st) \<longrightarrow> float_overflow (PING_INTERVAL c)"
    using main_while_raised[of c sigs its st] by blast
  have p8: "stop_requested st \<longrightarrow>
      stop_requested (advance sigs d st) \<and> stop_requested (sleep_loop sigs t st) \<and>
      stop_requested (snd (iteration c sigs s dur st)) \<and>
      stop_requested (state_of (main_while c sigs its st))"
    by (simp add: advance_stop sleep_loop_stopped iteration_keeps_stop main_while_keeps_stop)
  show ?thesis
    using p1 p2 advance_stop[of sigs d st] sleep_loop_stop[of sigs t st] p5 p6
      main_while_returned[of c sigs its st] p7 p8
    by blast
qed













theorem stop_flag_monotone_witness:
  "(0 :: real) \<le> 1 / 2 \<and>
   \<not> stop_requested initial_state \<and>
   delivered [(1, SIGINT)] (now initial_state)
     (now (snd (iteration example_config [(1, SIGINT)] (healthy None) (1 / 2) initial_state))) \<noteq> [] \<and>
   stop_requested (snd (iteration example_config [(1, SIGINT)] (healthy None) (1 / 2) initial_state))"
proof -
  have a: "(0 :: real) \<le> 1 / 2"
    by simp
  have n: "now (snd (iteration example_config [(1, SIGINT)] (healthy None) (1 / 2) initial_state)) = 3 / 2"
    by (simp add: iteration_eq Let_def sleep_loop.simps advance_def delivered_def
        signal_handler_def initial_state_def example_config_def float_overflow_def)
  have d: "delivered [(1, SIGINT)] (now initial_state)
     (now (snd (iteration example_config [(1, SIGINT)] (healthy None) (1 / 2) initial_state))) \<noteq> []"
    unfolding n by (simp add: delivered_def initial_state_def)
  have "stop_requested (snd (iteration example_config [(1, SIGINT)] (healthy None) (1 / 2) initial_state)) =
        (stop_requested initial_state \<or>
         delivered [(1, SIGINT)] (now initial_state)
           (now (snd (iteration example_config [(1, SIGINT)] (healthy None) (1 / 2) initial_state))) \<noteq> [])"
    using a stop_flag_monotone
      [where sg = SIGINT and st = initial_state and sigs = "[(1, SIGINT)]" and d = 0 and t = 0
         and dur = "1 / 2" and c = example_config and s = "healthy None"
         and its = "[(healthy None, 1 / 2)]"]
    by blast
  then show ?thesis
    using a d by (simp add: initial_state_def)
qed



subsection \<open>Startup without a database name, exit codes, log sinks\<close>
















lemma format_handlers:
  "format (fmt stdout_h) r = asctime r @ '' [INFO] '' @ msg r"
  "format (fmt stderr_h) r = asctime r @ '' [ERROR] '' @ msg r"
  "format (fmt (file_h p)) r = asctime r @ '' ['' @ levelname (lvl r) @ ''] '' @ msg r"
  by (simp_all add: format_def stdout_h_def stderr_h_def file_h_def)

text \<open>
  Claim C9, as amended. With an empty \<open>LOG_FILE\<close> the logger has the two stream sinks
  and no file-system call is made; with a non-empty one, and the two file-system calls
  succeeding, it has a third sink that appends to that file, after the directory of the
  file (or \<open>.\<close>) has been created. A record goes to standard output from \<open>INFO\<close> up,
  to standard error from \<open>WARNING\<close> up, and to the file at every level. Each sink writes
  the time stamp, a label in brackets and the message; the label is always \<open>INFO\<close> on
  standard output, always \<open>ERROR\<close> on standard error, and the level of the record in the
  file only.
\<close>

theorem logging_sinks:
  "(LOG_FILE c = [] \<longrightarrow> setup_logging c fs = (Inr [stdout_h, stderr_h], [])) \<and>
   (LOG_FILE c \<noteq> [] \<and> makedirs_r fs = None \<and> open_r fs = None \<longrightarrow>
      setup_logging c fs =
        (Inr [stdout_h, stderr_h, file_h (LOG_FILE c)],
         [Makedirs (if dirname (LOG_FILE c) \<noteq> [] then dirname (LOG_FILE c) else ''.''),
          OpenFile (LOG_FILE c) ''a''])) \<and>
   target stdout_h = Stdout \<and> min_level stdout_h = INFO \<and>
   target stderr_h = Stderr \<and> min_level stderr_h = WARNING \<and>
   target (file_h p) = File p ''a'' \<and> min_level (file_h p) = DEBUG \<and>
   emit [stdout_h, stderr_h, file_h p] r =
     (if 20 \<le> levelno (lvl r) then [(Stdout, asctime r @ '' [INFO] '' @ msg r)] else []) @
     (if 30 \<le> levelno (lvl r) then [(Stderr, asctime r @ '' [ERROR] '' @ msg r)] else []) @
     [(File p ''a'', asctime r @ '' ['' @ levelname (lvl r) @ ''] '' @ msg r)] \<and>
   emit [stdout_h, stderr_h] r =
     (if 20 \<le> levelno (lvl r) then [(Stdout, asctime r @ '' [INFO] '' @ msg r)] else []) @
     (if 30 \<le> levelno (lvl r) then [(Stderr, asctime r @ '' [ERROR] '' @ msg r)] else [])"
proof -
  have p1: "LOG_FILE c = [] \<longrightarrow> setup_logging c fs = (Inr [stdout_h, stderr_h], [])"
    by (simp add: setup_logging_def)
  have p2: "LOG_FILE c \<noteq> [] \<and> makedirs_r fs = None \<and> open_r fs = None \<longrightarrow>
      setup_logging c fs =
        (Inr [stdout_h, stderr_h, file_h (LOG_FILE c)],
         [Makedirs (if dirname (LOG_FILE c) \<noteq> [] then dirname (LOG_FILE c) else ''.''),
          OpenFile (LOG_FILE c) ''a''])"
    by (simp add: setup_logging_def Let_def)
  have l: "target stdout_h = Stdout" "min_level stdout_h = INFO"
    "target stderr_h = Stderr" "min_level stderr_h = WARNING"
    "target (file_h p) = File p ''a''" "min_level (file_h p) = DEBUG"
    by (simp_all add: stdout_h_def stderr_h_def file_h_def)
  have e3: "emit [stdout_h, stderr_h, file_h p] r =
     (if 20 \<le> levelno (lvl r) then [(Stdout, asctime r @ '' [INFO] '' @ msg r)] else []) @
     (if 30 \<le> levelno (lvl r) then [(Stderr, asctime r @ '' [ERROR] '' @ msg r)] else []) @
     [(File p ''a'', asctime r @ '' ['' @ levelname (lvl r) @ ''] '' @ msg r)]"
    by (cases "lvl r") (simp_all add: emit_def l format_handlers)
  have e2: "emit [stdout_h, stderr_h] r =
     (if 20 \<le> levelno (lvl r) then [(Stdout, asctime r @ '' [INFO] '' @ msg r)] else []) @
     (if 30 \<le> levelno (lvl r) then [(Stderr, asctime r @ '' [ERROR] '' @ msg r)] else [])"
    by (cases "lvl r") (simp_all add: emit_def l format_handlers)
  show ?thesis
    using p1 p2 l e3 e2 by simp
qed

text \<open>
  Claim C9 as stated fails on the two stream sinks: the \<open>WARNING\<close> record of an empty
  result is written to standard output with the label \<open>INFO\<close> and to standard error
  with the label \<open>ERROR\<close>, not with its own severity.
\<close>

theorem warning_record_label_counterexample:
  "emit [stdout_h, stderr_h]
     \<lparr> asctime = ''2026-01-01 00:00:00,000'', lvl = WARNING,
       msg = ''Connected but VERSION() returned empty result.'' \<rparr> =
     [(Stdout, ''2026-01-01 00:00:00,000 [INFO] Connected but VERSION() returned empty result.''),
      (Stderr, ''2026-01-01 00:00:00,000 [ERROR] Connected but VERSION() returned empty result.'')] \<and>
   format (fmt stdout_h)
     \<lparr> asctime = ''2026-01-01 00:00:00,000'', lvl = WARNING,
       msg = ''Connected but VERSION() returned empty result.'' \<rparr> \<noteq>
     ''2026-01-01 00:00:00,000 [WARNING] Connected but VERSION() returned empty result.''"
  by (simp add: emit_def stdout_h_def stderr_h_def format_def)







theorem logging_sinks_witness:
  "LOG_FILE example_config = [] \<and>
   setup_logging example_config \<lparr> makedirs_r = None, open_r = None \<rparr> =
     (Inr [stdout_h, stderr_h], []) \<and>
   LOG_FILE (example_config \<lparr> LOG_FILE := ''/var/log/p.log'' \<rparr>) \<noteq> [] \<and>
   setup_logging (example_config \<lparr> LOG_FILE := ''/var/log/p.log'' \<rparr>)
       \<lparr> makedirs_r = None, open_r = None \<rparr> =
     (Inr [stdout_h, stderr_h, file_h ''/var/log/p.log''],
      [Makedirs ''/var/log'', OpenFile ''/var/log/p.log'' ''a''])"
proof -
  let ?fs = "\<lparr> makedirs_r = None, open_r = None \<rparr>"
  let ?c = "example_config \<lparr> LOG_FILE := ''/var/log/p.log'' \<rparr>"
  have a: "LOG_FILE example_config = []"
    by (simp add: example_config_def)
  have b: "LOG_FILE ?c \<noteq> [] \<and> makedirs_r ?fs = None \<and> open_r ?fs = None"
    by simp
  have d: "dirname ''/var/log/p.log'' = ''/var/log''"
    by (simp add: dirname_def)
  have s1: "setup_logging example_config ?fs = (Inr [stdout_h, stderr_h], [])"
    using a logging_sinks [of example_config ?fs] by blast
  have s2: "setup_logging ?c ?fs =
        (Inr [stdout_h, stderr_h, file_h (LOG_FILE ?c)],
         [Makedirs (if dirname (LOG_FILE ?c) \<noteq> [] then dirname (LOG_FILE ?c) else ''.''),
          OpenFile (LOG_FILE ?c) ''a''])"
    using b logging_sinks [of ?c ?fs] by blast
  show ?thesis
    using a s1 s2 by (simp add: d)
qed

end
